theory Spec2Isabelle
  imports Complex_Main "HOL-Library.AList" "HOL-Library.Monad_Syntax"
begin

text \<open>
  A shallow embedding of the core of the generative-agents simulation server: paths and the
  spatial index, the associative memory, the maze pathfinder, the reaction splice of the
  daily schedule and the focal-point retrieval.  The definitions follow the Go source
  function by function and come first; the properties follow.
\<close>

section \<open>Paths (memory/path.go)\<close>

text \<open>
  A Go \<open>string\<close> is a byte sequence and is modelled as a \<open>char list\<close>.  A function
  that can panic returns an \<open>option\<close>: \<open>None\<close> is the panic, \<open>Some\<close> the normal return.
\<close>

record Path =
  world :: string
  sector :: string
  arena :: string
  object :: string

text \<open>\<open>strings.Split(s, sep)\<close> for a one-byte separator: the pieces between the
  separators, always at least one piece.\<close>

fun Split :: "string \<Rightarrow> char \<Rightarrow> string list" where
  "Split [] sep = [[]]"
| "Split (c # cs) sep =
     (if c = sep then [] # Split cs sep
      else (case Split cs sep of
              [] \<Rightarrow> [[c]]
            | part # parts \<Rightarrow> (c # part) # parts))"

text \<open>\<open>strings.Join(parts, sep)\<close>.\<close>

fun Join :: "string list \<Rightarrow> string \<Rightarrow> string" where
  "Join [] sep = []"
| "Join [part] sep = part"
| "Join (part # parts) sep = part @ sep @ Join parts sep"

text \<open>\<open>ParsePath\<close> panics on more than four parts.\<close>

definition ParsePath :: "string \<Rightarrow> Path option" where
  "ParsePath loc =
     (let parts = Split loc CHR '':'' in
      if length parts > 4 then None
      else Some \<lparr> world = parts ! 0,
                 sector = (if length parts > 1 then parts ! 1 else []),
                 arena = (if length parts > 2 then parts ! 2 else []),
                 object = (if length parts > 3 then parts ! 3 else []) \<rparr>)"

definition ToString :: "Path \<Rightarrow> string" where
  "ToString p =
     (let str = world p in
      if sector p = [] then str
      else let str = str @ '':'' @ sector p in
        if arena p = [] then str
        else let str = str @ '':'' @ arena p in
          if object p = [] then str
          else str @ '':'' @ object p)"

datatype PathLevel =
    PathLevelInvalid
  | PathLevelWorld
  | PathLevelSector
  | PathLevelArena
  | PathLevelObject

text \<open>The constants are numbered by \<open>iota\<close>; \<open>GetKnown\<close> compares levels by number.\<close>

fun level_number :: "PathLevel \<Rightarrow> nat" where
  "level_number PathLevelInvalid = 0"
| "level_number PathLevelWorld = 1"
| "level_number PathLevelSector = 2"
| "level_number PathLevelArena = 3"
| "level_number PathLevelObject = 4"

text \<open>\<open>Path.Get\<close> panics on any level other than the four proper ones.\<close>

fun Get :: "Path \<Rightarrow> PathLevel \<Rightarrow> string option" where
  "Get p PathLevelWorld = Some (world p)"
| "Get p PathLevelSector = Some (sector p)"
| "Get p PathLevelArena = Some (arena p)"
| "Get p PathLevelObject = Some (object p)"
| "Get p PathLevelInvalid = None"

text \<open>The segments of a path, top level first, and the paths the data model allows:
  between one and four non-empty segments, a lower one only under the higher ones.\<close>

definition segments :: "Path \<Rightarrow> string list" where
  "segments p = [world p, sector p, arena p, object p]"

definition nonempty_prefix :: "Path \<Rightarrow> string list" where
  "nonempty_prefix p = takeWhile (\<lambda>s. s \<noteq> []) (segments p)"

definition is_prefix_path :: "Path \<Rightarrow> bool" where
  "is_prefix_path p =
     (world p \<noteq> [] \<and> (sector p = [] \<longrightarrow> arena p = []) \<and> (arena p = [] \<longrightarrow> object p = []))"

definition colon_free :: "Path \<Rightarrow> bool" where
  "colon_free p = (\<forall>s \<in> set (segments p). CHR '':'' \<notin> set s)"

section \<open>Spatial index (memory/spatial)\<close>

text \<open>
  \<open>Worlds\<close> is a four-level Go map \<open>world -> sector -> arena -> object -> struct{}\<close>.
  Each level is a partial function; the keys of a map, which Go enumerates in no fixed
  order and without repetition, are its domain.
\<close>

type_synonym Objects = "string \<rightharpoonup> unit"
type_synonym Arenas = "string \<rightharpoonup> Objects"
type_synonym Sectors = "string \<rightharpoonup> Arenas"
type_synonym Worlds = "string \<rightharpoonup> Sectors"

record Spatial =
  worlds :: Worlds

definition NewSpatial :: Spatial where
  "NewSpatial = \<lparr> worlds = Map.empty \<rparr>"

text \<open>
  The four steps of \<open>Register\<close>.  Reading through a missing key yields a nil map, and a
  read of a nil map reports the key absent; the assignment that follows then writes into
  the nil map and panics.  So each step below the first panics when the container one
  level up does not exist.
\<close>

definition registerWorld :: "Worlds \<Rightarrow> Path \<Rightarrow> Worlds" where
  "registerWorld ws path =
     (if world path \<noteq> [] then
        (case ws (world path) of
           None \<Rightarrow> ws(world path \<mapsto> Map.empty)
         | Some _ \<Rightarrow> ws)
      else ws)"

definition registerSector :: "Worlds \<Rightarrow> Path \<Rightarrow> Worlds option" where
  "registerSector ws path =
     (if sector path \<noteq> [] then
        (case ws (world path) of
           None \<Rightarrow> None
         | Some sectors \<Rightarrow>
             (case sectors (sector path) of
                None \<Rightarrow> Some (ws(world path \<mapsto> sectors(sector path \<mapsto> Map.empty)))
              | Some _ \<Rightarrow> Some ws))
      else Some ws)"

definition registerArena :: "Worlds \<Rightarrow> Path \<Rightarrow> Worlds option" where
  "registerArena ws path =
     (if arena path \<noteq> [] then
        (case ws (world path) of
           None \<Rightarrow> None
         | Some sectors \<Rightarrow>
             (case sectors (sector path) of
                None \<Rightarrow> None
              | Some arenas \<Rightarrow>
                  (case arenas (arena path) of
                     None \<Rightarrow>
                       Some (ws(world path \<mapsto>
                               sectors(sector path \<mapsto> arenas(arena path \<mapsto> Map.empty))))
                   | Some _ \<Rightarrow> Some ws)))
      else Some ws)"

definition registerObject :: "Worlds \<Rightarrow> Path \<Rightarrow> Worlds option" where
  "registerObject ws path =
     (if object path \<noteq> [] then
        (case ws (world path) of
           None \<Rightarrow> None
         | Some sectors \<Rightarrow>
             (case sectors (sector path) of
                None \<Rightarrow> None
              | Some arenas \<Rightarrow>
                  (case arenas (arena path) of
                     None \<Rightarrow> None
                   | Some objects \<Rightarrow>
                       (case objects (object path) of
                          None \<Rightarrow>
                            Some (ws(world path \<mapsto>
                                    sectors(sector path \<mapsto>
                                      arenas(arena path \<mapsto> objects(object path \<mapsto> ())))))
                        | Some _ \<Rightarrow> Some ws))))
      else Some ws)"

definition Register :: "Spatial \<Rightarrow> Path \<Rightarrow> Spatial option" where
  "Register store path =
     do {
       ws2 \<leftarrow> registerSector (registerWorld (worlds store) path) path;
       ws3 \<leftarrow> registerArena ws2 path;
       ws4 \<leftarrow> registerObject ws3 path;
       Some (store\<lparr> worlds := ws4 \<rparr>)
     }"

definition keys :: "('k \<rightharpoonup> 'v) \<Rightarrow> 'k set" where
  "keys m = dom m"

text \<open>\<open>GetKnown\<close> reads the query's segments by \<open>path.Get\<close> at the three proper upper
  levels, where \<open>Get\<close> returns the segment.\<close>

definition GetKnown :: "Spatial \<Rightarrow> Path \<Rightarrow> PathLevel \<Rightarrow> string set" where
  "GetKnown store path level =
     (if level = PathLevelInvalid then {}
      else if level_number level \<le> level_number PathLevelWorld then keys (worlds store)
      else
        (case worlds store (world path) of
           None \<Rightarrow> {}
         | Some sectors \<Rightarrow>
             if level_number level \<le> level_number PathLevelSector then keys sectors
             else
               (case sectors (sector path) of
                  None \<Rightarrow> {}
                | Some arenas \<Rightarrow>
                    if level_number level \<le> level_number PathLevelArena then keys arenas
                    else
                      (case arenas (arena path) of
                         None \<Rightarrow> {}
                       | Some objects \<Rightarrow> keys objects))))"

text \<open>A sequence of \<open>Register\<close> calls, in order; it stops at the first panic.\<close>

fun RegisterAll :: "Spatial \<Rightarrow> Path list \<Rightarrow> Spatial option" where
  "RegisterAll store [] = Some store"
| "RegisterAll store (path # paths) =
     (case Register store path of
        None \<Rightarrow> None
      | Some store' \<Rightarrow> RegisterAll store' paths)"

text \<open>
  The specification of \<open>GetKnown\<close>: the level-\<open>L\<close> segment values, without the empty
  one, of the registered paths that agree with the query on every level above \<open>L\<close>.
\<close>

fun registered_under :: "Path list \<Rightarrow> Path \<Rightarrow> PathLevel \<Rightarrow> string set" where
  "registered_under ps q PathLevelInvalid = {}"
| "registered_under ps q PathLevelWorld =
     set (map world (filter (\<lambda>p. world p \<noteq> []) ps))"
| "registered_under ps q PathLevelSector =
     set (map sector (filter (\<lambda>p. sector p \<noteq> [] \<and> world p = world q) ps))"
| "registered_under ps q PathLevelArena =
     set (map arena (filter (\<lambda>p. arena p \<noteq> [] \<and> world p = world q \<and> sector p = sector q) ps))"
| "registered_under ps q PathLevelObject =
     set (map object (filter (\<lambda>p. object p \<noteq> [] \<and> world p = world q \<and> sector p = sector q
                                  \<and> arena p = arena q) ps))"

text \<open>The key sets seen at each level of a \<open>Worlds\<close> map; they restate \<open>GetKnown\<close>
  level by level and are used in the proofs only.\<close>

definition known1 :: "Worlds \<Rightarrow> string set" where
  "known1 ws = dom ws"

definition known2 :: "Worlds \<Rightarrow> string \<Rightarrow> string set" where
  "known2 ws w = (case ws w of None \<Rightarrow> {} | Some sectors \<Rightarrow> dom sectors)"

definition known3 :: "Worlds \<Rightarrow> string \<Rightarrow> string \<Rightarrow> string set" where
  "known3 ws w s =
     (case ws w of None \<Rightarrow> {} | Some sectors \<Rightarrow>
        (case sectors s of None \<Rightarrow> {} | Some arenas \<Rightarrow> dom arenas))"

definition known4 :: "Worlds \<Rightarrow> string \<Rightarrow> string \<Rightarrow> string \<Rightarrow> string set" where
  "known4 ws w s a =
     (case ws w of None \<Rightarrow> {} | Some sectors \<Rightarrow>
        (case sectors s of None \<Rightarrow> {} | Some arenas \<Rightarrow>
           (case arenas a of None \<Rightarrow> {} | Some objects \<Rightarrow> dom objects)))"

text \<open>The data-model condition on a path (a lower segment is set only under the higher
  ones), and the stores that hold no empty key on the three upper levels.\<close>

definition lower_implies_higher :: "Path \<Rightarrow> bool" where
  "lower_implies_higher p =
     ((sector p \<noteq> [] \<longrightarrow> world p \<noteq> []) \<and>
      (arena p \<noteq> [] \<longrightarrow> sector p \<noteq> []) \<and>
      (object p \<noteq> [] \<longrightarrow> arena p \<noteq> []))"

definition no_empty_key :: "Worlds \<Rightarrow> bool" where
  "no_empty_key ws =
     ([] \<notin> known1 ws \<and> (\<forall>w. [] \<notin> known2 ws w) \<and> (\<forall>w s. [] \<notin> known3 ws w s))"

section \<open>Associative memory (memory/associative)\<close>

text \<open>
  \<open>NodeId\<close> is a Go \<open>int\<close>.  A \<open>time.Time\<close> is modelled as an instant counted in
  nanoseconds from the zero time (so the zero value is \<open>0\<close>), a \<open>time.Duration\<close> as a
  number of nanoseconds.  A \<open>float64\<close> is modelled as a real number: rounding,
  infinities and NaN are outside the model.
\<close>

type_synonym NodeId = int
type_synonym Time = int
type_synonym Duration = int
type_synonym float64 = real

datatype SPO = SPO (spoSubject: string) (spoPredicate: string) (spoObject: string)

datatype NodeType =
    NodeTypeInvalid
  | NodeTypeThought
  | NodeTypeEvent
  | NodeTypeChat

record Utterance =
  Speaker :: string
  Sentence :: string

record ConceptNode =
  Id :: NodeId
  NodeCount :: int
  TypeCount :: int
  Type :: NodeType
  Depth :: int
  Created :: Time
  LastAccessed :: Time
  Expiration :: "Time option"
  Subject :: string
  Predicate :: string
  Object :: string
  Description :: string
  EmbeddingKey :: string
  Importance :: int
  Valence :: int
  Keywords :: "string list"
  Evidence :: "NodeId list"
  ChatLog :: "Utterance list"

text \<open>The Go zero value of \<open>ConceptNode\<close>, which \<open>NewAssociative\<close> puts at index 0.\<close>

definition zeroNode :: ConceptNode where
  "zeroNode = \<lparr> Id = 0, NodeCount = 0, TypeCount = 0, Type = NodeTypeInvalid, Depth = 0,
     Created = 0, LastAccessed = 0, Expiration = None, Subject = [], Predicate = [],
     Object = [], Description = [], EmbeddingKey = [], Importance = 0, Valence = 0,
     Keywords = [], Evidence = [], ChatLog = [] \<rparr>"

text \<open>
  A Go map that may be \<open>nil\<close>.  Reading a \<open>nil\<close> map finds no key; an assignment to an
  entry of a \<open>nil\<close> map panics.
\<close>

datatype ('k, 'v) gomap = NilMap | GoMap "'k \<rightharpoonup> 'v"

definition mapGet :: "('k, 'v) gomap \<Rightarrow> 'k \<Rightarrow> 'v option" where
  "mapGet m k = (case m of NilMap \<Rightarrow> None | GoMap f \<Rightarrow> f k)"

definition mapSet :: "('k, 'v) gomap \<Rightarrow> 'k \<Rightarrow> 'v \<Rightarrow> ('k, 'v) gomap option" where
  "mapSet m k v = (case m of NilMap \<Rightarrow> None | GoMap f \<Rightarrow> Some (GoMap (f(k \<mapsto> v))))"

text \<open>
  The three keyword indexes are created by \<open>NewAssociative\<close> with \<open>make\<close>; the two
  keyword-strength maps and the embedding map are the caller's, stored as they are passed,
  \<open>nil\<close> included.
\<close>

record Associative =
  nodes :: "ConceptNode list"
  events :: "NodeId list"
  thoughts :: "NodeId list"
  chats :: "NodeId list"
  kwToEvents :: "string \<rightharpoonup> NodeId list"
  kwToThoughts :: "string \<rightharpoonup> NodeId list"
  kwToChats :: "string \<rightharpoonup> NodeId list"
  kwStrengthEvents :: "(string, int) gomap"
  kwStrengthThoughts :: "(string, int) gomap"
  embeddings :: "(string, float64 list) gomap"

definition NewAssociative ::
  "(string, float64 list) gomap \<Rightarrow> (string, int) gomap \<Rightarrow> (string, int) gomap \<Rightarrow> Associative" where
  "NewAssociative embs kwStrengthEvs kwStrengthThs =
     \<lparr> nodes = [zeroNode], events = [], thoughts = [], chats = [],
       kwToEvents = Map.empty, kwToThoughts = Map.empty, kwToChats = Map.empty,
       kwStrengthEvents = kwStrengthEvs, kwStrengthThoughts = kwStrengthThs,
       embeddings = embs \<rparr>"

text \<open>\<open>store.nodes[node]\<close> panics when the index is out of range.\<close>

definition GetNode :: "Associative \<Rightarrow> NodeId \<Rightarrow> ConceptNode option" where
  "GetNode store node =
     (if 0 \<le> node \<and> node < int (length (nodes store)) then Some (nodes store ! nat node)
      else None)"

definition UpdateNode ::
  "Associative \<Rightarrow> NodeId \<Rightarrow> (ConceptNode \<Rightarrow> ConceptNode) \<Rightarrow> Associative option" where
  "UpdateNode store node update =
     (if 0 \<le> node \<and> node < int (length (nodes store))
      then Some (store\<lparr> nodes := (nodes store)[nat node := update (nodes store ! nat node)] \<rparr>)
      else None)"

definition GetEmbedding :: "Associative \<Rightarrow> string \<Rightarrow> float64 list option" where
  "GetEmbedding store str = mapGet (embeddings store) str"

text \<open>\<open>SaveEmbedding\<close> assigns to the embedding map, and panics when it is \<open>nil\<close>.\<close>

definition SaveEmbedding :: "Associative \<Rightarrow> string \<Rightarrow> float64 list \<Rightarrow> Associative option" where
  "SaveEmbedding store str embedding =
     (case mapSet (embeddings store) str embedding of
        None \<Rightarrow> None
      | Some embs \<Rightarrow> Some (store\<lparr> embeddings := embs \<rparr>))"

text \<open>\<open>strings.ToLower\<close> on ASCII letters; bytes outside \<open>A\<close>..\<open>Z\<close> are kept.  (Go also
  lowers letters beyond ASCII; nothing below depends on them.)\<close>

definition lowerChar :: "char \<Rightarrow> char" where
  "lowerChar c =
     (case map_of (zip ''ABCDEFGHIJKLMNOPQRSTUVWXYZ'' ''abcdefghijklmnopqrstuvwxyz'') c of
        Some l \<Rightarrow> l
      | None \<Rightarrow> c)"

definition ToLower :: "string \<Rightarrow> string" where
  "ToLower s = map lowerChar s"

text \<open>The arguments of \<open>AddEvent\<close>, \<open>AddThought\<close> and \<open>AddChat\<close>, by their Go names;
  \<open>AddChat\<close> takes \<open>chat\<close> where the other two take \<open>evidence\<close>.\<close>

record AddArgs =
  spo :: SPO
  description :: string
  keywordsArg :: "string list"
  importance :: int
  valence :: int
  evidence :: "NodeId list"
  chat :: "Utterance list"
  created :: Time
  expiration :: "Time option"
  embeddingKey :: string
  embedding :: "float64 list"

text \<open>One round of the keyword loop: prepend the id to the keyword's list.\<close>

definition prependId :: "NodeId \<Rightarrow> (string \<rightharpoonup> NodeId list) \<Rightarrow> string \<Rightarrow> (string \<rightharpoonup> NodeId list)" where
  "prependId node m kw =
     (case m kw of
        Some kws \<Rightarrow> m(kw \<mapsto> node # kws)
      | None \<Rightarrow> m(kw \<mapsto> [node]))"

text \<open>\<open>m[kw] += 1\<close>, a missing key reading as 0; the assignment panics on a \<open>nil\<close>
  map.  \<open>bumpAll\<close> is the loop over the keywords.\<close>

definition bumpStrength :: "(string, int) gomap \<Rightarrow> string \<Rightarrow> (string, int) gomap option" where
  "bumpStrength m kw = mapSet m kw ((case mapGet m kw of None \<Rightarrow> 0 | Some n \<Rightarrow> n) + 1)"

fun bumpAll :: "(string, int) gomap \<Rightarrow> string list \<Rightarrow> (string, int) gomap option" where
  "bumpAll m [] = Some m"
| "bumpAll m (kw # kws) =
     (case bumpStrength m kw of
        None \<Rightarrow> None
      | Some m' \<Rightarrow> bumpAll m' kws)"

text \<open>
  The keyword strings are lower-cased in place after the node is built; the node's \<open>Keywords\<close>
  slice shares the array, so the stored and the returned node carry the lower-cased
  strings.

  \<open>AddEvent\<close> appends the node, prepends its id to the event list and to the keyword
  index, then counts the keywords in \<open>kwStrengthEvents\<close> (unless the event is idle) and
  last stores the embedding.  The last two steps assign to the caller's maps: the call
  panics (\<open>None\<close>) when the strength map is \<open>nil\<close> and a keyword is counted, and when the
  embedding map is \<open>nil\<close>.
\<close>

definition AddEvent :: "Associative \<Rightarrow> AddArgs \<Rightarrow> (Associative \<times> ConceptNode) option" where
  "AddEvent store a =
     (let nodeCount = int (length (nodes store));
          typeCount = int (length (events store));
          nodeType = NodeTypeEvent;
          nodeId = nodeCount;
          depth = 0;
          kws = map ToLower (keywordsArg a);
          node = \<lparr> Id = nodeId, NodeCount = nodeCount, TypeCount = typeCount,
                   Type = nodeType, Depth = depth, Created = created a,
                   LastAccessed = created a, Expiration = expiration a,
                   Subject = spoSubject (spo a), Predicate = spoPredicate (spo a),
                   Object = spoObject (spo a), Description = description a,
                   EmbeddingKey = embeddingKey a, Importance = importance a,
                   Valence = valence a, Keywords = kws, Evidence = evidence a,
                   ChatLog = [] \<rparr>
      in case (if spoPredicate (spo a) \<noteq> ''is'' \<and> spoObject (spo a) \<noteq> ''idle''
               then bumpAll (kwStrengthEvents store) kws
               else Some (kwStrengthEvents store)) of
           None \<Rightarrow> None
         | Some strengths \<Rightarrow>
            (case mapSet (embeddings store) (embeddingKey a) (embedding a) of
               None \<Rightarrow> None
             | Some embs \<Rightarrow>
                 Some (store\<lparr> nodes := nodes store @ [node],
                              events := Id node # events store,
                              kwToEvents := foldl (prependId (Id node)) (kwToEvents store) kws,
                              kwStrengthEvents := strengths,
                              embeddings := embs \<rparr>,
                       node)))"

text \<open>The depth loop of \<open>AddThought\<close> reads \<open>store.nodes[nodeId]\<close> for every evidence id,
  and panics on an id out of range.\<close>

fun maxEvidenceDepth :: "ConceptNode list \<Rightarrow> int \<Rightarrow> NodeId list \<Rightarrow> int option" where
  "maxEvidenceDepth ns maxDepth [] = Some maxDepth"
| "maxEvidenceDepth ns maxDepth (nodeId # rest) =
     (if 0 \<le> nodeId \<and> nodeId < int (length ns)
      then maxEvidenceDepth ns
             (if Depth (ns ! nat nodeId) > maxDepth then Depth (ns ! nat nodeId) else maxDepth)
             rest
      else None)"

definition AddThought :: "Associative \<Rightarrow> AddArgs \<Rightarrow> (Associative \<times> ConceptNode) option" where
  "AddThought store a =
     (let nodeCount = int (length (nodes store));
          typeCount = int (length (thoughts store));
          nodeType = NodeTypeThought;
          nodeId = nodeCount
      in case maxEvidenceDepth (nodes store) 0 (evidence a) of
           None \<Rightarrow> None
         | Some maxDepth \<Rightarrow>
            (let depth = 1 + maxDepth;
                 kws = map ToLower (keywordsArg a);
                 node = \<lparr> Id = nodeId, NodeCount = nodeCount, TypeCount = typeCount,
                          Type = nodeType, Depth = depth, Created = created a,
                          LastAccessed = created a, Expiration = expiration a,
                          Subject = spoSubject (spo a), Predicate = spoPredicate (spo a),
                          Object = spoObject (spo a), Description = description a,
                          EmbeddingKey = embeddingKey a, Importance = importance a,
                          Valence = valence a, Keywords = kws, Evidence = evidence a,
                          ChatLog = [] \<rparr>
             in case (if spoPredicate (spo a) \<noteq> ''is'' \<and> spoObject (spo a) \<noteq> ''idle''
                      then bumpAll (kwStrengthThoughts store) kws
                      else Some (kwStrengthThoughts store)) of
                  None \<Rightarrow> None
                | Some strengths \<Rightarrow>
                   (case mapSet (embeddings store) (embeddingKey a) (embedding a) of
                      None \<Rightarrow> None
                    | Some embs \<Rightarrow>
                        Some (store\<lparr> nodes := nodes store @ [node],
                                     thoughts := Id node # thoughts store,
                                     kwToThoughts := foldl (prependId (Id node)) (kwToThoughts store) kws,
                                     kwStrengthThoughts := strengths,
                                     embeddings := embs \<rparr>,
                              node))))"

text \<open>\<open>AddChat\<close> keeps no keyword strengths; it panics when the embedding map is \<open>nil\<close>.\<close>

definition AddChat :: "Associative \<Rightarrow> AddArgs \<Rightarrow> (Associative \<times> ConceptNode) option" where
  "AddChat store a =
     (let nodeCount = int (length (nodes store));
          typeCount = int (length (thoughts store));
          nodeType = NodeTypeChat;
          nodeId = nodeCount;
          depth = 0;
          kws = map ToLower (keywordsArg a);
          node = \<lparr> Id = nodeId, NodeCount = nodeCount, TypeCount = typeCount,
                   Type = nodeType, Depth = depth, Created = created a,
                   LastAccessed = created a, Expiration = expiration a,
                   Subject = spoSubject (spo a), Predicate = spoPredicate (spo a),
                   Object = spoObject (spo a), Description = description a,
                   EmbeddingKey = embeddingKey a, Importance = importance a,
                   Valence = valence a, Keywords = kws, Evidence = [],
                   ChatLog = chat a \<rparr>
      in case mapSet (embeddings store) (embeddingKey a) (embedding a) of
           None \<Rightarrow> None
         | Some embs \<Rightarrow>
             Some (store\<lparr> nodes := nodes store @ [node],
                          chats := Id node # chats store,
                          kwToChats := foldl (prependId (Id node)) (kwToChats store) kws,
                          embeddings := embs \<rparr>,
                   node))"

text \<open>The result of the two retrieval functions is a Go set (\<open>map[NodeId]struct{}\<close>).\<close>

definition idsOf :: "(string \<rightharpoonup> NodeId list) \<Rightarrow> string \<Rightarrow> NodeId set" where
  "idsOf m kw = (case m kw of Some ids \<Rightarrow> set ids | None \<Rightarrow> {})"

definition RetrieveRelevantEvents :: "Associative \<Rightarrow> string \<Rightarrow> string \<Rightarrow> string \<Rightarrow> NodeId set" where
  "RetrieveRelevantEvents store subject predicate obj =
     foldl (\<lambda>ret i. ret \<union> idsOf (kwToThoughts store) i) {} [subject, predicate, obj]"

definition RetrieveRelevantThoughts :: "Associative \<Rightarrow> string \<Rightarrow> string \<Rightarrow> string \<Rightarrow> NodeId set" where
  "RetrieveRelevantThoughts store subject predicate obj =
     foldl (\<lambda>ret i. ret \<union> idsOf (kwToThoughts store) i) {} [subject, predicate, obj]"

definition GetLatestEventIds :: "Associative \<Rightarrow> NodeId list" where
  "GetLatestEventIds store = events store"

definition GetLatestThoughtIds :: "Associative \<Rightarrow> NodeId list" where
  "GetLatestThoughtIds store = thoughts store"

text \<open>A sequence of \<open>AddEvent\<close> calls, in order, with the nodes the calls return; a
  panic of one call ends the sequence.\<close>

fun AddEvents :: "Associative \<Rightarrow> AddArgs list \<Rightarrow> (Associative \<times> ConceptNode list) option" where
  "AddEvents store [] = Some (store, [])"
| "AddEvents store (a # as) =
     (case AddEvent store a of
        None \<Rightarrow> None
      | Some (store1, node) \<Rightarrow>
          (case AddEvents store1 as of
             None \<Rightarrow> None
           | Some (store2, ns) \<Rightarrow> Some (store2, node # ns)))"

text \<open>The union of the event-type keyword index entries of three strings: what claim C5
  expects of \<open>RetrieveRelevantEvents\<close>.\<close>

definition eventIndexUnion :: "Associative \<Rightarrow> string \<Rightarrow> string \<Rightarrow> string \<Rightarrow> NodeId set" where
  "eventIndexUnion store subject predicate obj =
     idsOf (kwToEvents store) subject \<union> idsOf (kwToEvents store) predicate
       \<union> idsOf (kwToEvents store) obj"

text \<open>A store freshly created with three empty (non-nil) maps.\<close>

definition emptyStore :: Associative where
  "emptyStore = NewAssociative (GoMap Map.empty) (GoMap Map.empty) (GoMap Map.empty)"

text \<open>An example call: the event "bob is cooking".\<close>

definition bobCooking :: AddArgs where
  "bobCooking =
     \<lparr> spo = SPO ''bob'' ''is'' ''cooking'', description = ''bob is cooking'',
       keywordsArg = [''Bob'', ''cooking''], importance = 3, valence = 0, evidence = [],
       chat = [], created = 10, expiration = None, embeddingKey = ''bob is cooking'',
       embedding = [1] \<rparr>"

section \<open>Maze and pathfinder (maze/maze.go, maze/path_finder.go)\<close>

record TilePos =
  X :: int
  Y :: int

text \<open>
  Of the maze, the pathfinder reads the shape of \<open>tiles\<close> and the collision grid; the
  name, folder, tile size and address index are left out, and the tile type is a
  parameter.  Both grids are height by width.
\<close>

record 'tile Maze =
  width :: int
  height :: int
  collisionInfo :: "bool list list"
  tiles :: "'tile list list"

text \<open>\<open>New\<close> panics unless both grids have \<open>height\<close> rows of \<open>width\<close> cells.\<close>

definition New :: "int \<Rightarrow> int \<Rightarrow> bool list list \<Rightarrow> 'tile list list \<Rightarrow> 'tile Maze option" where
  "New w h collision ts =
     (if int (length ts) \<noteq> h then None
      else if list_ex (\<lambda>row. int (length row) \<noteq> w) ts then None
      else if int (length collision) \<noteq> h then None
      else if list_ex (\<lambda>row. int (length row) \<noteq> w) collision then None
      else Some \<lparr> width = w, height = h, collisionInfo = collision, tiles = ts \<rparr>)"

text \<open>\<open>d[i][j] = v\<close> on a grid.\<close>

definition setCell :: "int list list \<Rightarrow> nat \<Rightarrow> nat \<Rightarrow> int \<Rightarrow> int list list" where
  "setCell d i j v = d[i := (d ! i)[j := v]]"

text \<open>
  The body of the two loops of \<open>makeStep\<close> at one cell \<open>(i, j)\<close>; the four updates happen
  in the order north, west, south, east, each on the grid the previous one left.  On a
  maze built by \<open>New\<close> the distance grid and the collision grid have the same
  rectangular shape and every index read here is within range.
\<close>

definition visitCell :: "bool list list \<Rightarrow> int \<Rightarrow> int list list \<Rightarrow> nat \<times> nat \<Rightarrow> int list list" where
  "visitCell collision k d cell =
     (case cell of (i, j) \<Rightarrow>
        if d ! i ! j \<noteq> k then d
        else
          let d1 = (if i > 0 \<and> d ! (i - 1) ! j = 0 \<and> \<not> collision ! (i - 1) ! j
                    then setCell d (i - 1) j (k + 1) else d);
              d2 = (if j > 0 \<and> d1 ! i ! (j - 1) = 0 \<and> \<not> collision ! i ! (j - 1)
                    then setCell d1 i (j - 1) (k + 1) else d1);
              d3 = (if i < length d2 - 1 \<and> d2 ! (i + 1) ! j = 0 \<and> \<not> collision ! (i + 1) ! j
                    then setCell d2 (i + 1) j (k + 1) else d2);
              d4 = (if j < length (d3 ! i) - 1 \<and> d3 ! i ! (j + 1) = 0 \<and> \<not> collision ! i ! (j + 1)
                    then setCell d3 i (j + 1) (k + 1) else d3)
          in d4)"

text \<open>The cells in the order the two nested loops visit them (the shape of the grid
  does not change during a step).\<close>

definition cells :: "int list list \<Rightarrow> (nat \<times> nat) list" where
  "cells d = concat (map (\<lambda>i. map (\<lambda>j. (i, j)) [0 ..< length (d ! i)]) [0 ..< length d])"

definition makeStep :: "bool list list \<Rightarrow> int list list \<Rightarrow> int \<Rightarrow> int list list" where
  "makeStep collision d k = foldl (visitCell collision k) d (cells d)"

text \<open>The wavefront loop: \<open>for distMaze[end.Y][end.X] == 0 && loopMax > 0\<close>, by recursion
  on \<open>loopMax\<close>.\<close>

fun wavefront :: "bool list list \<Rightarrow> nat \<Rightarrow> nat \<Rightarrow> nat \<Rightarrow> int \<Rightarrow> int list list \<Rightarrow> int list list" where
  "wavefront collision ei ej 0 k d = d"
| "wavefront collision ei ej (Suc loopMax) k d =
     (if d ! ei ! ej = 0
      then wavefront collision ei ej loopMax (k + 1) (makeStep collision d (k + 1))
      else d)"

text \<open>
  The reconstruction loop \<open>for k > 1\<close>.  When none of its four branches applies, the
  loop body changes nothing and the loop never exits: that is \<open>None\<close>.
\<close>

function walk :: "int list list \<Rightarrow> nat \<Rightarrow> nat \<Rightarrow> int \<Rightarrow> TilePos list \<Rightarrow> TilePos list option" where
  "walk d i j k path =
     (if k > 1 then
        (if i > 0 \<and> d ! (i - 1) ! j = k - 1
         then walk d (i - 1) j (k - 1) (path @ [\<lparr> X = int j, Y = int (i - 1) \<rparr>])
         else if j > 0 \<and> d ! i ! (j - 1) = k - 1
         then walk d i (j - 1) (k - 1) (path @ [\<lparr> X = int (j - 1), Y = int i \<rparr>])
         else if i < length d - 1 \<and> d ! (i + 1) ! j = k - 1
         then walk d (i + 1) j (k - 1) (path @ [\<lparr> X = int j, Y = int (i + 1) \<rparr>])
         else if j < length (d ! i) - 1 \<and> d ! i ! (j + 1) = k - 1
         then walk d i (j + 1) (k - 1) (path @ [\<lparr> X = int (j + 1), Y = int i \<rparr>])
         else None)
      else Some path)"
  by pat_completeness auto
termination
  by (relation "measure (\<lambda>(d, i, j, k, path). nat k)") auto

declare walk.simps [simp del]

text \<open>\<open>distMaze[pos.Y][pos.X]\<close> is within range.\<close>

definition inGrid :: "'a list list \<Rightarrow> TilePos \<Rightarrow> bool" where
  "inGrid d pos =
     (0 \<le> Y pos \<and> nat (Y pos) < length d \<and> 0 \<le> X pos \<and> nat (X pos) < length (d ! nat (Y pos)))"

text \<open>The distance grid when the wavefront loop has ended (cap 150).\<close>

definition distAfterWavefront :: "'tile Maze \<Rightarrow> TilePos \<Rightarrow> TilePos \<Rightarrow> int list list" where
  "distAfterWavefront m startTile endTile =
     wavefront (collisionInfo m) (nat (Y endTile)) (nat (X endTile)) 150 0
       (setCell (map (\<lambda>row. replicate (length row) 0) (tiles m))
          (nat (Y startTile)) (nat (X startTile)) 1)"

text \<open>
  \<open>Pathfind\<close>.  It panics (\<open>None\<close>) when the start or the end tile lies outside the grid;
  \<open>None\<close> is also the reconstruction loop not ending.
\<close>

definition Pathfind :: "'tile Maze \<Rightarrow> TilePos \<Rightarrow> TilePos \<Rightarrow> TilePos list option" where
  "Pathfind m startTile endTile =
     (if \<not> inGrid (tiles m) startTile then None
      else if \<not> inGrid (tiles m) endTile then None
      else
        let distMaze = distAfterWavefront m startTile endTile;
            i = nat (Y endTile);
            j = nat (X endTile);
            k = distMaze ! i ! j
        in map_option rev (walk distMaze i j k [endTile]))"

text \<open>The maze of the repository's pathfinder test: 8 rows of 13 tiles, \<open>#\<close> a wall.\<close>

definition testRows :: "string list" where
  "testRows =
     [''#############'',
      ''  #     #   #'',
      ''# #  ##   # #'',
      ''# #  ## # # #'',
      ''#       #   #'',
      ''### # ### # #'',
      ''#         #  '',
      ''#############'']"

definition testMaze :: "unit Maze" where
  "testMaze =
     \<lparr> width = 13, height = 8,
       collisionInfo = map (map (\<lambda>c. c = CHR ''#'')) testRows,
       tiles = map (map (\<lambda>c. ())) testRows \<rparr>"

text \<open>A corridor of three tiles with a wall in the middle.\<close>

definition walledCorridor :: "unit Maze" where
  "walledCorridor =
     \<lparr> width = 3, height = 1, collisionInfo = [[False, True, False]], tiles = [[(), (), ()]] \<rparr>"

text \<open>Two open corridors, of three tiles and of 152 tiles.\<close>

definition openCorridor :: "unit Maze" where
  "openCorridor =
     \<lparr> width = 3, height = 1, collisionInfo = [[False, False, False]], tiles = [[(), (), ()]] \<rparr>"

definition longCorridor :: "unit Maze" where
  "longCorridor =
     \<lparr> width = 152, height = 1, collisionInfo = [replicate 152 False],
       tiles = [replicate 152 ()] \<rparr>"

section \<open>Persona state (agent/persona.go)\<close>

record Plan =
  Activity :: string
  Duration :: int

text \<open>
  The fields of \<open>State\<close> that the functions below read or write; the identity fields
  (names, age, traits, lifestyle, living area), the perception bounds, the reflection
  counters and the daily plan are left out.
\<close>

record State =
  Position :: TilePos
  CurrentTime :: Time
  RecencyDecay :: float64
  DailySchedule :: "Plan list"
  OriginalDailySchedule :: "Plan list"
  PlannedPath :: "TilePos list"
  ActivitySPO :: SPO
  ActivityDescription :: string
  ActivityPronunciato :: string
  ActivityAddress :: Path
  ActivityStartTime :: Time
  ActivityDuration :: Duration
  ActivityPathSet :: bool
  ActivityObjectDescription :: string
  ActivityObjectPronunciato :: string
  ActivityObjectSPO :: SPO
  Chat :: "Utterance list"
  ChatEndTime :: Time
  ChattingWith :: string
  ChattingWithBuffer :: "string \<rightharpoonup> int"
  RecencyWeight :: float64
  ImportanceWeight :: float64
  RelevanceWeight :: float64
  ValenceWeight :: float64

text \<open>The embedder and the cognition capability of a persona are external; the functions
  that call them take what they need of them as a parameter.\<close>

record Persona =
  name :: string
  state :: State
  associativeMemory :: Associative
  spatialMemory :: Spatial

definition Minute :: Duration where
  "Minute = 60 * 1000000000"

definition Hour :: Duration where
  "Hour = 60 * Minute"

text \<open>Midnight of the current day and the time elapsed since, in a zone whose days all
  have 24 hours.\<close>

definition StartOfDay :: "Persona \<Rightarrow> Time" where
  "StartOfDay p = CurrentTime (state p) - CurrentTime (state p) mod (24 * Hour)"

definition SetActivity ::
  "State \<Rightarrow> Path \<Rightarrow> Duration \<Rightarrow> string \<Rightarrow> string \<Rightarrow> SPO \<Rightarrow> string \<Rightarrow> string \<Rightarrow> SPO \<Rightarrow> State" where
  "SetActivity s activityAddress duration activityDescription activityPronunciato activitySPO
       activityObjectDescription activityObjectPronunciato activityObjectSPO =
     s\<lparr> ActivityAddress := activityAddress,
        ActivityDuration := duration,
        ActivityDescription := activityDescription,
        ActivityPronunciato := activityPronunciato,
        ActivitySPO := activitySPO,
        ChattingWith := [],
        Chat := [],
        ChatEndTime := 0,
        ActivityObjectDescription := activityObjectDescription,
        ActivityObjectPronunciato := activityObjectPronunciato,
        ActivityObjectSPO := activityObjectSPO,
        ActivityStartTime := CurrentTime s,
        ActivityPathSet := False \<rparr>"

text \<open>The buffer argument is copied entry by entry into the state's buffer; it is given
  here by its entries.\<close>

definition SetChatActivity ::
  "State \<Rightarrow> Path \<Rightarrow> Duration \<Rightarrow> string \<Rightarrow> string \<Rightarrow> SPO \<Rightarrow> string \<Rightarrow> Utterance list
     \<Rightarrow> (string \<times> int) list \<Rightarrow> Time \<Rightarrow> State" where
  "SetChatActivity s activityAddress duration activityDescription activityPronunciato activitySPO
       chattingWith chatLog chattingWithBuffer chatEndTime =
     s\<lparr> ActivityAddress := activityAddress,
        ActivityDuration := duration,
        ActivityDescription := activityDescription,
        ActivityPronunciato := activityPronunciato,
        ActivitySPO := activitySPO,
        ChattingWith := chattingWith,
        Chat := chatLog,
        ChattingWithBuffer :=
          foldl (\<lambda>m (k, v). m(k \<mapsto> v)) (ChattingWithBuffer s) chattingWithBuffer,
        ChatEndTime := chatEndTime,
        ActivityObjectDescription := [],
        ActivityObjectPronunciato := [],
        ActivityObjectSPO := SPO [] [] [],
        ActivityStartTime := CurrentTime s,
        ActivityPathSet := False \<rparr>"

text \<open>The loop shared by \<open>GetDailyPlanIndexInMinutes\<close> and
  \<open>GetOriginalDailyPlanIndexInMinutes\<close>.\<close>

fun planIndexLoop :: "Plan list \<Rightarrow> Duration \<Rightarrow> int \<Rightarrow> Duration \<Rightarrow> int" where
  "planIndexLoop [] timeElapsedToday currIndex elapsed = currIndex"
| "planIndexLoop (plan # rest) timeElapsedToday currIndex elapsed =
     (let elapsed' = elapsed + Duration plan * Minute in
      if timeElapsedToday < elapsed' then currIndex
      else planIndexLoop rest timeElapsedToday (currIndex + 1) elapsed')"

definition timeElapsedToday :: "State \<Rightarrow> int \<Rightarrow> Duration" where
  "timeElapsedToday s advance = CurrentTime s mod (24 * Hour) + advance * Minute"

definition GetDailyPlanIndexInMinutes :: "State \<Rightarrow> int \<Rightarrow> int" where
  "GetDailyPlanIndexInMinutes s advance =
     planIndexLoop (DailySchedule s) (timeElapsedToday s advance) 0 0"

definition GetDailyPlanIndex :: "State \<Rightarrow> int" where
  "GetDailyPlanIndex s = GetDailyPlanIndexInMinutes s 0"

definition GetOriginalDailyPlanIndexInMinutes :: "State \<Rightarrow> int \<Rightarrow> int" where
  "GetOriginalDailyPlanIndexInMinutes s advance =
     planIndexLoop (OriginalDailySchedule s) (timeElapsedToday s advance) 0 0"

definition GetOriginalDailyPlanIndex :: "State \<Rightarrow> int" where
  "GetOriginalDailyPlanIndex s = GetOriginalDailyPlanIndexInMinutes s 0"

section \<open>Reaction planning (agent/plan)\<close>

text \<open>The sum of the durations of a schedule, in minutes.\<close>

definition totalMinutes :: "Plan list \<Rightarrow> int" where
  "totalMinutes plans = sum_list (map Duration plans)"

text \<open>
  The loop of \<open>createReact\<close> over the daily schedule: \<open>startIndex\<close> and \<open>endIndex\<close> start
  at \<open>-1\<close> and become the first index whose entry begins at or after the start time and
  the end time.
\<close>

fun findIndices :: "Plan list \<Rightarrow> Time \<Rightarrow> Time \<Rightarrow> int \<Rightarrow> Time \<Rightarrow> int \<times> int \<Rightarrow> int \<times> int" where
  "findIndices [] startTime endTime i durSum (startIndex, endIndex) = (startIndex, endIndex)"
| "findIndices (plan # rest) startTime endTime i durSum (startIndex, endIndex) =
     (let startIndex' = (if \<not> durSum < startTime \<and> startIndex = -1 then i else startIndex);
          endIndex' = (if \<not> durSum < endTime \<and> endIndex = -1 then i else endIndex)
      in findIndices rest startTime endTime (i + 1) (durSum + Duration plan * Minute)
           (startIndex', endIndex'))"

text \<open>The window \<open>(startTime, endTime)\<close> that \<open>createReact\<close> computes from the original
  schedule; \<open>OriginalDailySchedule[index]\<close> panics when the index is the length.\<close>

definition reactWindow :: "Persona \<Rightarrow> (Time \<times> Time) option" where
  "reactWindow p =
     (let orig = OriginalDailySchedule (state p);
          idx = GetOriginalDailyPlanIndex (state p);
          minSum = totalMinutes (take (nat idx) orig);
          startTime = StartOfDay p + minSum * Minute
      in if \<not> (0 \<le> idx \<and> idx < int (length orig)) then None
         else
           let d = Duration (orig ! nat idx) in
           if d \<ge> 120 then Some (startTime, startTime + d * Minute)
           else if int (length orig) > idx + 1
           then Some (startTime,
                      startTime + (Duration (orig ! nat idx) + Duration (orig ! nat (idx + 1))) * Minute)
           else Some (startTime, startTime + 2 * Hour))"

text \<open>
  \<open>createReact\<close>.  \<open>generate\<close> stands for the persona's
  \<open>cognition.GenerateReactionScheduleUpdate\<close>.  The slices \<open>DailySchedule[:startIndex]\<close>
  and \<open>DailySchedule[endIndex:]\<close> panic on an index left at \<open>-1\<close>.  The chat arguments are
  used when \<open>chattingWith\<close> is not empty.
\<close>

definition createReact ::
  "(Persona \<Rightarrow> Plan \<Rightarrow> Time \<Rightarrow> Time \<Rightarrow> Plan list) \<Rightarrow> Persona \<Rightarrow> string \<Rightarrow> int \<Rightarrow> Path \<Rightarrow> SPO
     \<Rightarrow> Time \<Rightarrow> string \<Rightarrow> string \<Rightarrow> Utterance list \<Rightarrow> (string \<times> int) list \<Rightarrow> Time
     \<Rightarrow> Persona option" where
  "createReact generate p summary duration address spoArg actStartTime pronunciato chattingWith
       chatLog chattingWithBuffer chatEndTime =
     (case reactWindow p of
        None \<Rightarrow> None
      | Some (startTime, endTime) \<Rightarrow>
          (case findIndices (DailySchedule (state p)) startTime endTime 0 (StartOfDay p) (-1, -1) of
             (startIndex, endIndex) \<Rightarrow>
               let newPlans = generate p \<lparr> Activity = summary, Duration = duration \<rparr> startTime endTime
               in if startIndex < 0 \<or> endIndex < 0 then None
                  else
                    let before = take (nat startIndex) (DailySchedule (state p));
                        after = drop (nat endIndex) (DailySchedule (state p));
                        s1 = (state p)\<lparr> DailySchedule := before @ newPlans @ after \<rparr>;
                        dur = duration * Minute
                    in Some (p\<lparr> state :=
                               (if chattingWith \<noteq> []
                                then SetChatActivity s1 address dur summary pronunciato spoArg
                                       chattingWith chatLog chattingWithBuffer chatEndTime
                                else SetActivity s1 address dur summary pronunciato spoArg
                                       [] [] (SPO [] [] [])) \<rparr>)))"

text \<open>The length of a window in whole minutes, as the cognition validates it:
  \<open>int(endTime.Sub(startTime).Minutes())\<close>.\<close>

definition windowMinutes :: "Time \<Rightarrow> Time \<Rightarrow> int" where
  "windowMinutes startTime endTime = (endTime - startTime) div Minute"

section \<open>Retrieval (agent/retrieve)\<close>

text \<open>
  The score maps are Go maps from node ids to \<open>float64\<close>.  A map is modelled as an
  association list with distinct keys: an assignment \<open>m[k] = v\<close> is \<open>AList.update\<close>, a
  read of a missing key yields 0, and a \<open>range\<close> loop runs through the list.  Go leaves the
  iteration order of a map open; the list order is one such order.
\<close>

definition lookup0 :: "('k \<times> float64) list \<Rightarrow> 'k \<Rightarrow> float64" where
  "lookup0 m k = (case map_of m k of Some v \<Rightarrow> v | None \<Rightarrow> 0)"

text \<open>\<open>cosineSimilarity\<close> panics on vectors of different length, on empty vectors and on
  a zero norm.\<close>

definition cosineSimilarity :: "float64 list \<Rightarrow> float64 list \<Rightarrow> float64 option" where
  "cosineSimilarity a b =
     (if length a \<noteq> length b then None
      else if length a = 0 then None
      else
        let dot = foldl (\<lambda>acc (ai, bi). acc + ai * bi) 0 (zip a b);
            na = foldl (\<lambda>acc ai. acc + ai * ai) 0 a;
            nb = foldl (\<lambda>acc bi. acc + bi * bi) 0 b
        in if na = 0 \<or> nb = 0 then None
           else Some (dot / (sqrt na * sqrt nb)))"

text \<open>
  \<open>normalizeMap\<close>: minimum and maximum start as NaN and are set by the first value, so on
  an empty map they stay NaN and the function panics.  (With values in the reals no value
  is NaN.)
\<close>

definition normalizeMap :: "('k \<times> float64) list \<Rightarrow> float64 \<Rightarrow> float64 \<Rightarrow> ('k \<times> float64) list option" where
  "normalizeMap m targetMin targetMax =
     (case map snd m of
        [] \<Rightarrow> None
      | v # vs \<Rightarrow>
          let lo = foldl (\<lambda>lo v. if v < lo then v else lo) v vs;
              hi = foldl (\<lambda>hi v. if hi < v then v else hi) v vs
          in if hi = lo
             then Some (map (\<lambda>(key, val). (key, (targetMax - targetMin) / 2)) m)
             else
               let dist = hi - lo
               in Some (map (\<lambda>(key, val). (key, ((val - lo) * (targetMax - targetMin)) / dist + targetMin)) m))"

text \<open>
  \<open>highestNValues\<close>: the entries are sorted ascending by value and the first \<open>n\<close> are
  kept.  \<open>slices.SortFunc\<close> is not stable; the model sorts by insertion, which is one of
  the orders it may produce.  \<open>values[:n]\<close> panics on a negative \<open>n\<close>.
\<close>

definition highestNValues :: "('k \<times> 'v::linorder) list \<Rightarrow> int \<Rightarrow> ('k \<times> 'v) list option" where
  "highestNValues m n =
     (let values = sort_key snd m;
          n' = (if n > int (length values) then int (length values) else n)
      in if n' < 0 then None else Some (take (nat n') values))"

definition clampAndFlip :: "('k \<times> float64) list \<Rightarrow> float64 \<Rightarrow> ('k \<times> float64) list" where
  "clampAndFlip m clamp = map (\<lambda>(k, v). (k, if v < 0 then - v else min v clamp)) m"

text \<open>\<open>strings.Contains\<close>.\<close>

fun Contains :: "string \<Rightarrow> string \<Rightarrow> bool" where
  "Contains [] substr = (substr = [])"
| "Contains (c # cs) substr = (take (length substr) (c # cs) = substr \<or> Contains cs substr)"

text \<open>The node of an id that is known to be within range.\<close>

definition nodeAt :: "Associative \<Rightarrow> NodeId \<Rightarrow> ConceptNode" where
  "nodeAt store node = nodes store ! nat node"

definition extractRecency :: "Persona \<Rightarrow> NodeId list \<Rightarrow> (NodeId \<times> float64) list" where
  "extractRecency p ns =
     foldl (\<lambda>out (i, node). AList.update node (RecencyDecay (state p) ^ (i + 1)) out) []
       (zip [0 ..< length ns] ns)"

definition extractImportance :: "Persona \<Rightarrow> NodeId list \<Rightarrow> (NodeId \<times> float64) list" where
  "extractImportance p ns =
     foldl (\<lambda>out node. AList.update node (real_of_int (Importance (nodeAt (associativeMemory p) node))) out)
       [] ns"

definition extractValence :: "Persona \<Rightarrow> NodeId list \<Rightarrow> (NodeId \<times> float64) list" where
  "extractValence p ns =
     foldl (\<lambda>out node. AList.update node (real_of_int (Valence (nodeAt (associativeMemory p) node))) out)
       [] ns"

text \<open>\<open>Persona.GetEmbedding\<close>: the cached vector, or else the embedder's, which is then
  cached (\<open>SaveEmbedding\<close>, which panics on a \<open>nil\<close> embedding map).\<close>

definition PersonaGetEmbedding ::
  "(string \<Rightarrow> float64 list) \<Rightarrow> Persona \<Rightarrow> string \<Rightarrow> (float64 list \<times> Persona) option" where
  "PersonaGetEmbedding embedder p str =
     (case GetEmbedding (associativeMemory p) str of
        Some e \<Rightarrow> Some (e, p)
      | None \<Rightarrow>
          (case SaveEmbedding (associativeMemory p) str (embedder str) of
             None \<Rightarrow> None
           | Some store \<Rightarrow> Some (embedder str, p\<lparr> associativeMemory := store \<rparr>)))"

text \<open>\<open>GetEmbeddingByNodeId\<close>; a missing key gives the nil slice.\<close>

definition GetEmbeddingByNodeId :: "Associative \<Rightarrow> NodeId \<Rightarrow> float64 list" where
  "GetEmbeddingByNodeId store node =
     (case mapGet (embeddings store) (EmbeddingKey (nodeAt store node)) of
        Some e \<Rightarrow> e
      | None \<Rightarrow> [])"

fun relevanceLoop ::
  "Associative \<Rightarrow> float64 list \<Rightarrow> (NodeId \<times> float64) list \<Rightarrow> NodeId list \<Rightarrow> (NodeId \<times> float64) list option" where
  "relevanceLoop store focalEmbedding out [] = Some out"
| "relevanceLoop store focalEmbedding out (node # rest) =
     (case cosineSimilarity (GetEmbeddingByNodeId store node) focalEmbedding of
        None \<Rightarrow> None
      | Some c \<Rightarrow> relevanceLoop store focalEmbedding (AList.update node c out) rest)"

definition extractRelevance ::
  "(string \<Rightarrow> float64 list) \<Rightarrow> Persona \<Rightarrow> NodeId list \<Rightarrow> string
     \<Rightarrow> ((NodeId \<times> float64) list \<times> Persona) option" where
  "extractRelevance embedder p ns focalPoint =
     (case PersonaGetEmbedding embedder p focalPoint of
        None \<Rightarrow> None
      | Some (focalEmbedding, p') \<Rightarrow>
          map_option (\<lambda>out. (out, p')) (relevanceLoop (associativeMemory p') focalEmbedding [] ns))"

record retrievalConfig =
  count :: int

type_synonym retrievalOpt = "retrievalConfig \<Rightarrow> retrievalConfig"

definition withRetrievalCount :: "int \<Rightarrow> retrievalOpt" where
  "withRetrievalCount n = (\<lambda>rc. rc\<lparr> count := n \<rparr>)"

text \<open>
  The candidate nodes of one focal point: the latest event ids followed by the latest
  thought ids, without the nodes whose embedding key contains \<open>idle\<close>, sorted ascending by
  last access (\<open>slices.SortFunc\<close> with \<open>memA.LastAccessed.Compare(memB.LastAccessed)\<close>;
  the sort is not stable, and the model keeps nodes of equal last access in their order,
  which is one of the orders it may produce).  \<open>GetNode\<close> panics on an id out of range.
\<close>

definition latestIds :: "Persona \<Rightarrow> NodeId list" where
  "latestIds p =
     GetLatestEventIds (associativeMemory p) @ GetLatestThoughtIds (associativeMemory p)"

definition candidates :: "Persona \<Rightarrow> NodeId list option" where
  "candidates p =
     (let store = associativeMemory p;
          ns = latestIds p
      in if list_ex (\<lambda>n. GetNode store n = None) ns then None
         else
           Some (sort_key (\<lambda>n. LastAccessed (nodeAt store n))
                   (filter (\<lambda>n. \<not> Contains (EmbeddingKey (nodeAt store n)) ''idle'') ns)))"

text \<open>The final scores of one focal point (the map \<open>out\<close> before \<open>highestNValues\<close>), with
  the persona after the focal point's embedding has been cached.\<close>

definition finalScores ::
  "(string \<Rightarrow> float64 list) \<Rightarrow> Persona \<Rightarrow> string \<Rightarrow> ((NodeId \<times> float64) list \<times> Persona) option" where
  "finalScores embedder p focalPoint =
     do {
       ns \<leftarrow> candidates p;
       recencyScores \<leftarrow> normalizeMap (extractRecency p ns) 0 1;
       importanceScores \<leftarrow> normalizeMap (extractImportance p ns) 0 1;
       (relevanceRaw, p') \<leftarrow> extractRelevance embedder p ns focalPoint;
       relevanceScores \<leftarrow> normalizeMap relevanceRaw 0 1;
       valenceScores \<leftarrow> normalizeMap (clampAndFlip (extractValence p' ns) 0) 0 1;
       Some (map (\<lambda>(key, r).
                    (key, lookup0 recencyScores key * 1 * RecencyWeight (state p') +
                          lookup0 importanceScores key * 1 * ImportanceWeight (state p') +
                          lookup0 relevanceScores key * 1 * RelevanceWeight (state p') +
                          lookup0 valenceScores key * 1 * ValenceWeight (state p')))
                  recencyScores,
             p')
     }"

text \<open>Touching the kept nodes: \<open>LastAccessed\<close> becomes the current time.\<close>

fun touchAll :: "Associative \<Rightarrow> Time \<Rightarrow> NodeId list \<Rightarrow> Associative option" where
  "touchAll store now [] = Some store"
| "touchAll store now (k # ks) =
     (case UpdateNode store k (\<lambda>c. c\<lparr> LastAccessed := now \<rparr>) of
        None \<Rightarrow> None
      | Some store' \<Rightarrow> touchAll store' now ks)"

text \<open>
  The loop of \<open>retrieveForFocalPoints\<close>.  The configuration is created with
  \<open>count: 30\<close>; the options are a parameter of the function and are not applied to it.
\<close>

fun retrieveLoop ::
  "(string \<Rightarrow> float64 list) \<Rightarrow> retrievalConfig \<Rightarrow> Persona \<Rightarrow> (string \<rightharpoonup> NodeId list) \<Rightarrow> string list
     \<Rightarrow> ((string \<rightharpoonup> NodeId list) \<times> Persona) option" where
  "retrieveLoop embedder config p retrieved [] = Some (retrieved, p)"
| "retrieveLoop embedder config p retrieved (focalPoint # rest) =
     do {
       (out, p1) \<leftarrow> finalScores embedder p focalPoint;
       kept \<leftarrow> highestNValues out (count config);
       store \<leftarrow> touchAll (associativeMemory p1) (CurrentTime (state p1)) (map fst kept);
       retrieveLoop embedder config (p1\<lparr> associativeMemory := store \<rparr>)
         (retrieved(focalPoint \<mapsto> map fst kept)) rest
     }"

definition retrieveForFocalPoints ::
  "(string \<Rightarrow> float64 list) \<Rightarrow> Persona \<Rightarrow> string list \<Rightarrow> retrievalOpt list
     \<Rightarrow> ((string \<rightharpoonup> NodeId list) \<times> Persona) option" where
  "retrieveForFocalPoints embedder p focalPoints retrievalOpts =
     (let config = \<lparr> count = 30 \<rparr>
      in retrieveLoop embedder config p Map.empty focalPoints)"



text \<open>The position of the first occurrence of an element, counted from the front.\<close>

fun position :: "'a list \<Rightarrow> 'a \<Rightarrow> nat" where
  "position [] x = 0"
| "position (y # ys) x = (if x = y then 0 else Suc (position ys x))"

text \<open>The position of the last occurrence of an element, counted from the front.\<close>

definition lastPosition :: "'a list \<Rightarrow> 'a \<Rightarrow> nat" where
  "lastPosition xs x = length xs - 1 - position (rev xs) x"

section \<open>Example personas\<close>

text \<open>A memory event created at time \<open>t\<close> with importance \<open>imp\<close>.\<close>

definition memEvent :: "Time \<Rightarrow> int \<Rightarrow> AddArgs" where
  "memEvent t imp =
     \<lparr> spo = SPO ''bob'' ''is'' ''cooking'', description = ''bob is cooking'',
       keywordsArg = [''Bob'', ''cooking''], importance = imp, valence = 0, evidence = [],
       chat = [], created = t, expiration = None, embeddingKey = ''bob is cooking'',
       embedding = [1] \<rparr>"

text \<open>
  A persona at 02:10 of the first day.  Her original schedule is hourly; her daily
  schedule is what it becomes when a reaction at 01:10 replaces the window 01:00 to 03:00
  by three entries of 10, 20 and 90 minutes.
\<close>

definition ann :: State where
  "ann =
     \<lparr> Position = \<lparr> X = 0, Y = 0 \<rparr>, CurrentTime = 130 * Minute, RecencyDecay = 1 / 2,
       DailySchedule =
         [\<lparr> Activity = ''sleeping'', Duration = 60 \<rparr>, \<lparr> Activity = ''reading'', Duration = 10 \<rparr>,
          \<lparr> Activity = ''chatting'', Duration = 20 \<rparr>, \<lparr> Activity = ''cooking'', Duration = 90 \<rparr>,
          \<lparr> Activity = ''eating'', Duration = 60 \<rparr>, \<lparr> Activity = ''working'', Duration = 1200 \<rparr>],
       OriginalDailySchedule =
         [\<lparr> Activity = ''sleeping'', Duration = 60 \<rparr>, \<lparr> Activity = ''reading'', Duration = 60 \<rparr>,
          \<lparr> Activity = ''cooking'', Duration = 60 \<rparr>, \<lparr> Activity = ''eating'', Duration = 60 \<rparr>,
          \<lparr> Activity = ''working'', Duration = 1200 \<rparr>],
       PlannedPath = [], ActivitySPO = SPO ''ann'' ''is'' ''cooking'',
       ActivityDescription = ''cooking'', ActivityPronunciato = [],
       ActivityAddress = \<lparr> world = ''ville'', sector = ''home'', arena = ''kitchen'', object = ''stove'' \<rparr>,
       ActivityStartTime = 90 * Minute, ActivityDuration = 90 * Minute, ActivityPathSet = True,
       ActivityObjectDescription = [], ActivityObjectPronunciato = [],
       ActivityObjectSPO = SPO [] [] [], Chat = [], ChatEndTime = 0, ChattingWith = [],
       ChattingWithBuffer = Map.empty,
       RecencyWeight = 1, ImportanceWeight = 2, RelevanceWeight = 1, ValenceWeight = 1 \<rparr>"

text \<open>Ann with two memories: an event created at time 1 with importance 1, then an event
  created at time 2 with importance 2, added to the fresh store (both calls return).\<close>

definition annTwoEvents :: Persona where
  "annTwoEvents =
     \<lparr> name = ''ann'', state = ann,
       associativeMemory =
         fst (the (AddEvents emptyStore [memEvent 1 1, memEvent 2 2])),
       spatialMemory = NewSpatial \<rparr>"

text \<open>
  Ann at 01:10 of the same day, before any reaction: her daily schedule is still the
  original one.  \<open>chatSchedule\<close> is the reaction schedule generated for her chat.
\<close>

definition annMorning :: Persona where
  "annMorning =
     \<lparr> name = ''ann'',
       state = ann\<lparr> CurrentTime := 70 * Minute,
                    DailySchedule := OriginalDailySchedule ann \<rparr>,
       associativeMemory = emptyStore,
       spatialMemory = NewSpatial \<rparr>"

definition chatSchedule :: "Persona \<Rightarrow> Plan \<Rightarrow> Time \<Rightarrow> Time \<Rightarrow> Plan list" where
  "chatSchedule p inserted startTime endTime =
     [\<lparr> Activity = ''reading'', Duration = 10 \<rparr>, inserted, \<lparr> Activity = ''cooking'', Duration = 90 \<rparr>]"

text \<open>A reaction schedule for a window of 120 minutes: the inserted activity between
  two truncated ones.\<close>

definition waitSchedule :: "Persona \<Rightarrow> Plan \<Rightarrow> Time \<Rightarrow> Time \<Rightarrow> Plan list" where
  "waitSchedule p inserted startTime endTime =
     [\<lparr> Activity = ''cooking'', Duration = 10 \<rparr>, inserted, \<lparr> Activity = ''eating'', Duration = 80 \<rparr>]"

text \<open>The embedder of the examples gives every string the same vector.\<close>

definition unitEmbedder :: "string \<Rightarrow> float64 list" where
  "unitEmbedder str = [1]"

text \<open>
  Ann with 31 memories: the event created at time 1 has importance 10, the events created
  at times 2 to 31 have importance 1.  They are added to the fresh store, and every call
  returns.
\<close>

definition crowdedArgs :: "AddArgs list" where
  "crowdedArgs = memEvent 1 10 # map (\<lambda>i. memEvent i 1) [2 .. 31]"

definition crowdedStore :: Associative where
  "crowdedStore = fst (the (AddEvents emptyStore crowdedArgs))"

definition annCrowded :: Persona where
  "annCrowded =
     \<lparr> name = ''ann'', state = ann, associativeMemory = crowdedStore, spatialMemory = NewSpatial \<rparr>"

text \<open>The ids of the 31 memories, oldest first, and the final score that the retrieval
  gives each of them (weights 1, 2, 1, 1 and decay 1/2).\<close>

definition crowdedIds :: "NodeId list" where
  "crowdedIds = map int [1 ..< 32]"

definition crowdedScore :: "NodeId \<Rightarrow> float64" where
  "crowdedScore n =
     ((1 / 2) ^ nat n - (1 / 2) ^ 31) / (1 / 2 - (1 / 2) ^ 31)
       + (if n = 1 then 2 else 0) + 1 / 2 + 1 / 2"

section \<open>Properties of paths\<close>

lemma Split_nonempty: "Split s sep \<noteq> []"
  by (induction s) (auto split: list.splits)

lemma Split_no_sep: "sep \<notin> set s \<Longrightarrow> Split s sep = [s]"
  by (induction s) auto

lemma Split_append_sep:
  "sep \<notin> set s \<Longrightarrow> Split (s @ sep # t) sep = s # Split t sep"
  by (induction s) (auto simp: Split_nonempty split: list.splits)

lemma ToString_Join:
  "is_prefix_path p \<Longrightarrow> ToString p = Join (nonempty_prefix p) '':''"
  by (auto simp: ToString_def is_prefix_path_def nonempty_prefix_def segments_def Let_def)

text \<open>
  Claim C9, as stated, fails: a segment may itself contain the separator.  The path whose
  only segment is the world \<open>a:b\<close> has one non-empty segment, renders as \<open>a:b\<close>, and
  parses back as world \<open>a\<close> with sector \<open>b\<close>.
\<close>

theorem ParsePath_ToString_counterexample:
  "is_prefix_path \<lparr>world = ''a:b'', sector = [], arena = [], object = []\<rparr> \<and>
   ParsePath (ToString \<lparr>world = ''a:b'', sector = [], arena = [], object = []\<rparr>)
     = Some \<lparr>world = ''a'', sector = ''b'', arena = [], object = []\<rparr> \<and>
   ParsePath (ToString \<lparr>world = ''a:b'', sector = [], arena = [], object = []\<rparr>)
     \<noteq> Some \<lparr>world = ''a:b'', sector = [], arena = [], object = []\<rparr>"
  by (simp add: is_prefix_path_def ToString_def ParsePath_def)

text \<open>
  Claim C9, amended: for every path with one to four non-empty segments (the first \<open>k\<close>
  set, the others empty) none of which contains a colon, parsing the rendered string returns
  the path again, and the rendered string is the colon-joined non-empty prefix of the
  segments.
\<close>

theorem ParsePath_ToString_roundtrip:
  assumes "is_prefix_path p" and "colon_free p"
  shows "ParsePath (ToString p) = Some p \<and> ToString p = Join (nonempty_prefix p) '':''"
proof -
  from assms(2) have c: "CHR '':'' \<notin> set (world p)" "CHR '':'' \<notin> set (sector p)"
     "CHR '':'' \<notin> set (arena p)" "CHR '':'' \<notin> set (object p)"
    by (simp_all add: colon_free_def segments_def)
  have "ParsePath (ToString p) = Some p"
    using assms(1) c
    by (auto simp: ToString_def ParsePath_def is_prefix_path_def Let_def Split_no_sep
        Split_append_sep)
  then show ?thesis using ToString_Join[OF assms(1)] by simp
qed

theorem ParsePath_ToString_roundtrip_witness:
  "is_prefix_path \<lparr>world = ''the ville'', sector = ''cafe'', arena = ''kitchen'', object = []\<rparr> \<and>
   colon_free \<lparr>world = ''the ville'', sector = ''cafe'', arena = ''kitchen'', object = []\<rparr> \<and>
   ToString \<lparr>world = ''the ville'', sector = ''cafe'', arena = ''kitchen'', object = []\<rparr>
     = ''the ville:cafe:kitchen'' \<and>
   ParsePath ''the ville:cafe:kitchen''
     = Some \<lparr>world = ''the ville'', sector = ''cafe'', arena = ''kitchen'', object = []\<rparr>"
  using ParsePath_ToString_roundtrip
    [of "\<lparr>world = ''the ville'', sector = ''cafe'', arena = ''kitchen'', object = []\<rparr>"]
  by (simp add: is_prefix_path_def colon_free_def segments_def ToString_def nonempty_prefix_def)

section \<open>Properties of the spatial index\<close>

lemma GetKnown_known:
  "GetKnown s q PathLevelInvalid = {}"
  "GetKnown s q PathLevelWorld = known1 (worlds s)"
  "GetKnown s q PathLevelSector = known2 (worlds s) (world q)"
  "GetKnown s q PathLevelArena = known3 (worlds s) (world q) (sector q)"
  "GetKnown s q PathLevelObject = known4 (worlds s) (world q) (sector q) (arena q)"
  by (simp_all add: GetKnown_def keys_def known1_def known2_def known3_def known4_def
      split: option.splits)

lemma registerWorld_known:
  "known1 (registerWorld ws p) = known1 ws \<union> (if world p \<noteq> [] then {world p} else {})"
  "known2 (registerWorld ws p) w = known2 ws w"
  "known3 (registerWorld ws p) w s = known3 ws w s"
  "known4 (registerWorld ws p) w s a = known4 ws w s a"
  by (auto simp: registerWorld_def known1_def known2_def known3_def known4_def
      split: option.splits)

lemma registerSector_known1:
  "registerSector ws p = Some ws' \<Longrightarrow> known1 ws' = known1 ws"
  by (auto simp: registerSector_def known1_def split: option.splits if_splits)

lemma registerSector_known2:
  "registerSector ws p = Some ws' \<Longrightarrow>
     known2 ws' w = known2 ws w \<union> (if sector p \<noteq> [] \<and> world p = w then {sector p} else {})"
  by (auto simp: registerSector_def known2_def split: option.splits if_splits)

lemma registerSector_known3:
  "registerSector ws p = Some ws' \<Longrightarrow> known3 ws' w s = known3 ws w s"
  by (auto simp: registerSector_def known3_def split: option.splits if_splits)

lemma registerSector_known4:
  "registerSector ws p = Some ws' \<Longrightarrow> known4 ws' w s a = known4 ws w s a"
  by (auto simp: registerSector_def known4_def split: option.splits if_splits)

lemma registerArena_known1:
  "registerArena ws p = Some ws' \<Longrightarrow> known1 ws' = known1 ws"
  by (auto simp: registerArena_def known1_def split: option.splits if_splits)

lemma registerArena_known2:
  "registerArena ws p = Some ws' \<Longrightarrow> known2 ws' w = known2 ws w"
  by (auto simp: registerArena_def known2_def split: option.splits if_splits)

lemma registerArena_known3:
  "registerArena ws p = Some ws' \<Longrightarrow>
     known3 ws' w s = known3 ws w s \<union>
       (if arena p \<noteq> [] \<and> world p = w \<and> sector p = s then {arena p} else {})"
  by (auto simp: registerArena_def known3_def split: option.splits if_splits)

lemma registerArena_known4:
  "registerArena ws p = Some ws' \<Longrightarrow> known4 ws' w s a = known4 ws w s a"
  by (auto simp: registerArena_def known4_def split: option.splits if_splits)

lemma registerObject_known1:
  "registerObject ws p = Some ws' \<Longrightarrow> known1 ws' = known1 ws"
  by (auto simp: registerObject_def known1_def split: option.splits if_splits)

lemma registerObject_known2:
  "registerObject ws p = Some ws' \<Longrightarrow> known2 ws' w = known2 ws w"
  by (auto simp: registerObject_def known2_def split: option.splits if_splits)

lemma registerObject_known3:
  "registerObject ws p = Some ws' \<Longrightarrow> known3 ws' w s = known3 ws w s"
  by (auto simp: registerObject_def known3_def split: option.splits if_splits)

lemma registerObject_known4:
  "registerObject ws p = Some ws' \<Longrightarrow>
     known4 ws' w s a = known4 ws w s a \<union>
       (if object p \<noteq> [] \<and> world p = w \<and> sector p = s \<and> arena p = a then {object p} else {})"
  by (auto simp: registerObject_def known4_def split: option.splits if_splits)

lemma registerSector_None:
  "(registerSector ws p = None) = (sector p \<noteq> [] \<and> world p \<notin> known1 ws)"
  by (auto simp: registerSector_def known1_def split: option.splits)

lemma registerArena_None:
  "(registerArena ws p = None) = (arena p \<noteq> [] \<and> sector p \<notin> known2 ws (world p))"
  by (auto simp: registerArena_def known2_def split: option.splits)

lemma registerObject_None:
  "(registerObject ws p = None) = (object p \<noteq> [] \<and> arena p \<notin> known3 ws (world p) (sector p))"
  by (auto simp: registerObject_def known3_def split: option.splits)

lemma Register_SomeE:
  assumes "Register s p = Some s'"
  obtains ws2 ws3 where
    "registerSector (registerWorld (worlds s) p) p = Some ws2"
    "registerArena ws2 p = Some ws3"
    "registerObject ws3 p = Some (worlds s')"
  using assms by (auto simp: Register_def bind_eq_Some_conv)

lemma Register_known1:
  assumes "Register s p = Some s'"
  shows "known1 (worlds s') = known1 (worlds s) \<union> (if world p \<noteq> [] then {world p} else {})"
proof -
  from assms obtain ws2 ws3 where
    a: "registerSector (registerWorld (worlds s) p) p = Some ws2"
    and b: "registerArena ws2 p = Some ws3"
    and c: "registerObject ws3 p = Some (worlds s')"
    by (rule Register_SomeE)
  show ?thesis
    by (simp only: registerObject_known1[OF c] registerArena_known1[OF b]
        registerSector_known1[OF a] registerWorld_known)
qed

lemma Register_known2:
  assumes "Register s p = Some s'"
  shows "known2 (worlds s') w = known2 (worlds s) w \<union>
           (if sector p \<noteq> [] \<and> world p = w then {sector p} else {})"
proof -
  from assms obtain ws2 ws3 where
    a: "registerSector (registerWorld (worlds s) p) p = Some ws2"
    and b: "registerArena ws2 p = Some ws3"
    and c: "registerObject ws3 p = Some (worlds s')"
    by (rule Register_SomeE)
  show ?thesis
    by (simp only: registerObject_known2[OF c] registerArena_known2[OF b]
        registerSector_known2[OF a] registerWorld_known)
qed

lemma Register_known3:
  assumes "Register s p = Some s'"
  shows "known3 (worlds s') w x = known3 (worlds s) w x \<union>
           (if arena p \<noteq> [] \<and> world p = w \<and> sector p = x then {arena p} else {})"
proof -
  from assms obtain ws2 ws3 where
    a: "registerSector (registerWorld (worlds s) p) p = Some ws2"
    and b: "registerArena ws2 p = Some ws3"
    and c: "registerObject ws3 p = Some (worlds s')"
    by (rule Register_SomeE)
  show ?thesis
    by (simp only: registerObject_known3[OF c] registerArena_known3[OF b]
        registerSector_known3[OF a] registerWorld_known)
qed

lemma Register_known4:
  assumes "Register s p = Some s'"
  shows "known4 (worlds s') w x a = known4 (worlds s) w x a \<union>
           (if object p \<noteq> [] \<and> world p = w \<and> sector p = x \<and> arena p = a then {object p} else {})"
proof -
  from assms obtain ws2 ws3 where
    a: "registerSector (registerWorld (worlds s) p) p = Some ws2"
    and b: "registerArena ws2 p = Some ws3"
    and c: "registerObject ws3 p = Some (worlds s')"
    by (rule Register_SomeE)
  show ?thesis
    by (simp only: registerObject_known4[OF c] registerArena_known4[OF b]
        registerSector_known4[OF a] registerWorld_known)
qed

lemma Register_GetKnown:
  assumes "Register s p = Some s'"
  shows "GetKnown s' q L = GetKnown s q L \<union> registered_under [p] q L"
  by (cases L)
     (auto simp: GetKnown_known Register_known1[OF assms] Register_known2[OF assms]
        Register_known3[OF assms] Register_known4[OF assms])

lemma registered_under_Cons:
  "registered_under (p # ps) q L = registered_under [p] q L \<union> registered_under ps q L"
  by (cases L) auto

lemma registered_under_set:
  "set ps' = set ps \<Longrightarrow> registered_under ps' q L = registered_under ps q L"
  by (cases L) simp_all

lemma RegisterAll_GetKnown:
  "RegisterAll s ps = Some s' \<Longrightarrow> GetKnown s' q L = GetKnown s q L \<union> registered_under ps q L"
proof (induction ps arbitrary: s)
  case Nil
  then show ?case by (cases L) simp_all
next
  case (Cons p ps)
  from Cons.prems obtain s1 where r: "Register s p = Some s1" and rest: "RegisterAll s1 ps = Some s'"
    by (auto split: option.splits)
  have "GetKnown s' q L = GetKnown s1 q L \<union> registered_under ps q L"
    by (rule Cons.IH[OF rest])
  also have "GetKnown s1 q L = GetKnown s q L \<union> registered_under [p] q L"
    by (rule Register_GetKnown[OF r])
  finally show ?case
    by (simp only: registered_under_Cons[of p ps] Un_assoc)
qed

lemma GetKnown_NewSpatial: "GetKnown NewSpatial q L = {}"
  by (cases L) (simp_all add: GetKnown_def NewSpatial_def keys_def)

text \<open>A call returns exactly when no lower segment is set under an empty higher one,
  given a store without empty keys (as every store built from \<open>NewSpatial\<close> is).\<close>

lemma Register_None_iff:
  "(Register s p = None) =
     ((sector p \<noteq> [] \<and> world p = [] \<and> [] \<notin> known1 (worlds s)) \<or>
      (arena p \<noteq> [] \<and> sector p = [] \<and> [] \<notin> known2 (worlds s) (world p)) \<or>
      (object p \<noteq> [] \<and> arena p = [] \<and> [] \<notin> known3 (worlds s) (world p) (sector p)))"
proof (cases "registerSector (registerWorld (worlds s) p) p")
  case None
  have "sector p \<noteq> [] \<and> world p = [] \<and> [] \<notin> known1 (worlds s)"
    using None registerSector_None[of "registerWorld (worlds s) p" p]
    by (auto simp: registerWorld_known split: if_splits)
  moreover have "Register s p = None"
    using None by (simp add: Register_def)
  ultimately show ?thesis by simp
next
  case (Some ws2)
  note a = Some
  have a': "\<not> (sector p \<noteq> [] \<and> world p = [] \<and> [] \<notin> known1 (worlds s))"
    using a registerSector_None[of "registerWorld (worlds s) p" p]
    by (auto simp: registerWorld_known)
  show ?thesis
  proof (cases "registerArena ws2 p")
    case None
    have "arena p \<noteq> [] \<and> sector p = [] \<and> [] \<notin> known2 (worlds s) (world p)"
      using None registerArena_None[of ws2 p]
      by (auto simp: registerSector_known2[OF a] registerWorld_known split: if_splits)
    moreover have "Register s p = None"
      using a None by (simp add: Register_def)
    ultimately show ?thesis by simp
  next
    case (Some ws3)
    note b = Some
    have b': "\<not> (arena p \<noteq> [] \<and> sector p = [] \<and> [] \<notin> known2 (worlds s) (world p))"
      using b registerArena_None[of ws2 p]
      by (auto simp: registerSector_known2[OF a] registerWorld_known)
    show ?thesis
    proof (cases "registerObject ws3 p")
      case None
      have "object p \<noteq> [] \<and> arena p = [] \<and> [] \<notin> known3 (worlds s) (world p) (sector p)"
        using None registerObject_None[of ws3 p]
        by (auto simp: registerArena_known3[OF b] registerSector_known3[OF a]
            registerWorld_known split: if_splits)
      moreover have "Register s p = None"
        using a b None by (simp add: Register_def)
      ultimately show ?thesis by simp
    next
      case (Some ws4)
      have c': "\<not> (object p \<noteq> [] \<and> arena p = [] \<and> [] \<notin> known3 (worlds s) (world p) (sector p))"
        using Some registerObject_None[of ws3 p]
        by (auto simp: registerArena_known3[OF b] registerSector_known3[OF a] registerWorld_known)
      show ?thesis using a b Some a' b' c' by (simp add: Register_def)
    qed
  qed
qed

lemma Register_returns_iff:
  "no_empty_key (worlds s) \<Longrightarrow> (\<exists>s'. Register s p = Some s') = lower_implies_higher p"
  using Register_None_iff[of s p]
  by (cases "Register s p") (auto simp: no_empty_key_def lower_implies_higher_def)

lemma Register_no_empty_key:
  assumes "Register s p = Some s'" and "no_empty_key (worlds s)"
  shows "no_empty_key (worlds s')"
  using assms(2)
  by (auto simp: no_empty_key_def Register_known1[OF assms(1)] Register_known2[OF assms(1)]
      Register_known3[OF assms(1)])

lemma RegisterAll_returns_iff:
  "no_empty_key (worlds s) \<Longrightarrow>
     (\<exists>s'. RegisterAll s ps = Some s') = (\<forall>p \<in> set ps. lower_implies_higher p)"
proof (induction ps arbitrary: s)
  case Nil
  then show ?case by simp
next
  case (Cons p ps)
  show ?case
  proof (cases "Register s p")
    case None
    then have "\<not> lower_implies_higher p"
      using Register_returns_iff[OF Cons.prems, of p] by simp
    then show ?thesis using None by simp
  next
    case (Some s1)
    then have "lower_implies_higher p"
      using Register_returns_iff[OF Cons.prems, of p] by auto
    moreover have "no_empty_key (worlds s1)"
      by (rule Register_no_empty_key[OF Some Cons.prems])
    ultimately show ?thesis
      using Some Cons.IH[of s1] by simp
  qed
qed

lemma no_empty_key_NewSpatial: "no_empty_key (worlds NewSpatial)"
  by (simp add: no_empty_key_def NewSpatial_def known1_def known2_def known3_def)

text \<open>After a sequence of calls that all return, \<open>GetKnown\<close> is the set of the segments
  registered under the query's prefix, and any sequence with the same set of paths returns
  too and yields the same answer.\<close>

lemma RegisterAll_GetKnown_order:
  assumes "RegisterAll NewSpatial ps = Some store"
  shows "GetKnown store q L = registered_under ps q L \<and>
         (\<forall>ps'. set ps' = set ps \<longrightarrow>
            (\<exists>store'. RegisterAll NewSpatial ps' = Some store' \<and>
                      GetKnown store' q L = GetKnown store q L))"
proof (intro conjI allI impI)
  show g: "GetKnown store q L = registered_under ps q L"
    using RegisterAll_GetKnown[OF assms, of q L] by (simp add: GetKnown_NewSpatial)
  fix ps' assume eq: "set ps' = set ps"
  have "\<forall>p \<in> set ps. lower_implies_higher p"
    using RegisterAll_returns_iff[OF no_empty_key_NewSpatial, of ps] assms by auto
  then have "\<forall>p \<in> set ps'. lower_implies_higher p" using eq by simp
  then obtain store' where s': "RegisterAll NewSpatial ps' = Some store'"
    using RegisterAll_returns_iff[OF no_empty_key_NewSpatial, of ps'] by auto
  have "GetKnown store' q L = registered_under ps' q L"
    using RegisterAll_GetKnown[OF s', of q L] by (simp add: GetKnown_NewSpatial)
  then have "GetKnown store' q L = GetKnown store q L"
    using g registered_under_set[OF eq] by simp
  with s' show "\<exists>store'. RegisterAll NewSpatial ps' = Some store' \<and>
                      GetKnown store' q L = GetKnown store q L" by blast
qed

text \<open>
  Claim C8, as stated, fails: not every sequence of \<open>Register\<close> calls leaves an index to
  query.  \<open>ParsePath\<close> makes of \<open>:cafe\<close> a path with the sector \<open>cafe\<close> and an empty
  world; \<open>Register\<close> skips the empty world and then assigns to
  \<open>store.worlds[""]["cafe"]\<close>, an entry of a \<open>nil\<close> map, which panics.
\<close>

theorem Register_empty_world_counterexample:
  "ParsePath '':cafe'' = Some \<lparr>world = [], sector = ''cafe'', arena = [], object = []\<rparr> \<and>
   Register NewSpatial \<lparr>world = [], sector = ''cafe'', arena = [], object = []\<rparr> = None \<and>
   RegisterAll NewSpatial [\<lparr>world = [], sector = ''cafe'', arena = [], object = []\<rparr>] = None"
  by (simp add: ParsePath_def Register_def NewSpatial_def registerWorld_def
      registerSector_def)

text \<open>
  Claim C8, amended: for every sequence of \<open>Register\<close> calls on a fresh index whose paths
  set a lower segment only under non-empty higher segments (these are exactly the
  sequences on which no call panics, lemma \<open>RegisterAll_returns_iff\<close>), the calls return
  and \<open>GetKnown\<close> is exactly the set of level-\<open>L\<close> segment values registered under the
  query's higher-level prefix; and any other sequence with the same set of paths (calls
  repeated or reordered) returns too and yields the same answer.
\<close>

theorem GetKnown_after_RegisterAll:
  assumes "\<forall>p \<in> set ps. lower_implies_higher p"
  shows "\<exists>store. RegisterAll NewSpatial ps = Some store \<and>
           GetKnown store q L = registered_under ps q L \<and>
           (\<forall>ps'. set ps' = set ps \<longrightarrow>
              (\<exists>store'. RegisterAll NewSpatial ps' = Some store' \<and>
                        GetKnown store' q L = GetKnown store q L))"
proof -
  from assms obtain store where s: "RegisterAll NewSpatial ps = Some store"
    using RegisterAll_returns_iff[OF no_empty_key_NewSpatial, of ps] by auto
  from RegisterAll_GetKnown_order[OF s, of q L] s show ?thesis by blast
qed

theorem GetKnown_after_RegisterAll_witness:
  "\<exists>store.
     RegisterAll NewSpatial
       [\<lparr>world = ''ville'', sector = ''cafe'', arena = ''kitchen'', object = ''stove''\<rparr>,
        \<lparr>world = ''ville'', sector = ''park'', arena = [], object = []\<rparr>,
        \<lparr>world = ''ville'', sector = ''cafe'', arena = ''kitchen'', object = ''stove''\<rparr>]
       = Some store \<and>
     GetKnown store \<lparr>world = ''ville'', sector = [], arena = [], object = []\<rparr> PathLevelSector
       = {''cafe'', ''park''} \<and>
     (\<exists>store'.
        RegisterAll NewSpatial
          [\<lparr>world = ''ville'', sector = ''park'', arena = [], object = []\<rparr>,
           \<lparr>world = ''ville'', sector = ''cafe'', arena = ''kitchen'', object = ''stove''\<rparr>]
          = Some store' \<and>
        GetKnown store' \<lparr>world = ''ville'', sector = [], arena = [], object = []\<rparr> PathLevelSector
          = GetKnown store \<lparr>world = ''ville'', sector = [], arena = [], object = []\<rparr>
              PathLevelSector)"
proof -
  let ?a = "\<lparr>world = ''ville'', sector = ''cafe'', arena = ''kitchen'', object = ''stove''\<rparr>"
  let ?b = "\<lparr>world = ''ville'', sector = ''park'', arena = [], object = []\<rparr>"
  let ?q = "\<lparr>world = ''ville'', sector = [], arena = [], object = []\<rparr>"
  have "\<forall>p \<in> set [?a, ?b, ?a]. lower_implies_higher p"
    by (simp add: lower_implies_higher_def)
  from GetKnown_after_RegisterAll[OF this, of ?q PathLevelSector]
  obtain store where s: "RegisterAll NewSpatial [?a, ?b, ?a] = Some store"
    and g: "GetKnown store ?q PathLevelSector = registered_under [?a, ?b, ?a] ?q PathLevelSector"
    and o: "\<forall>ps'. set ps' = set [?a, ?b, ?a] \<longrightarrow>
              (\<exists>store'. RegisterAll NewSpatial ps' = Some store' \<and>
                 GetKnown store' ?q PathLevelSector = GetKnown store ?q PathLevelSector)"
    by blast
  have e: "set [?b, ?a] = set [?a, ?b, ?a]"
    by auto
  from o e have o': "\<exists>store'. RegisterAll NewSpatial [?b, ?a] = Some store' \<and>
              GetKnown store' ?q PathLevelSector = GetKnown store ?q PathLevelSector"
    by blast
  have r: "registered_under [?a, ?b, ?a] ?q PathLevelSector = {''cafe'', ''park''}"
    by auto
  from s g o' r show ?thesis
    by (intro exI[of _ store]) (simp only: simp_thms)
qed

section \<open>Properties of the associative memory\<close>

text \<open>Assignments to a map that is not \<open>nil\<close> return, and leave it not \<open>nil\<close>.\<close>

lemma mapSet_returns:
  "m \<noteq> NilMap \<Longrightarrow> \<exists>f. mapSet m k v = Some (GoMap f)"
  by (cases m) (simp_all add: mapSet_def)

lemma bumpAll_returns:
  "m \<noteq> NilMap \<Longrightarrow> \<exists>f. bumpAll m kws = Some (GoMap f)"
proof (induction kws arbitrary: m)
  case Nil
  then show ?case by (cases m) simp_all
next
  case (Cons kw kws)
  from mapSet_returns[OF Cons.prems]
  obtain f where "bumpStrength m kw = Some (GoMap f)"
    unfolding bumpStrength_def by blast
  moreover have "\<exists>g. bumpAll (GoMap f) kws = Some (GoMap g)"
    by (rule Cons.IH) simp
  ultimately show ?case by simp
qed

lemma bumpAll_NilMap:
  "bumpAll NilMap kws = (if kws = [] then Some NilMap else None)"
  by (cases kws) (simp_all add: bumpStrength_def mapSet_def)

text \<open>What a call of \<open>AddEvent\<close> that returns has done.\<close>

lemma AddEvent_SomeE:
  assumes "AddEvent s a = Some (s', n)"
  shows "nodes s' = nodes s @ [n]"
    and "events s' = int (length (nodes s)) # events s"
    and "thoughts s' = thoughts s"
    and "Id n = int (length (nodes s))"
    and "TypeCount n = int (length (events s))"
    and "Importance n = importance a"
    and "Valence n = valence a"
    and "LastAccessed n = created a"
    and "EmbeddingKey n = embeddingKey a"
    and "mapGet (embeddings s') (embeddingKey a) = Some (embedding a)"
  using assms
  by (auto simp: AddEvent_def Let_def mapSet_def mapGet_def split: option.splits gomap.splits)

text \<open>\<open>AddEvent\<close> panics exactly when the embedding map is \<open>nil\<close>, or the strength map is
  \<open>nil\<close> and a keyword of an event that is not idle is counted.\<close>

lemma AddEvent_None_iff:
  "(AddEvent s a = None) =
     (embeddings s = NilMap \<or>
      (kwStrengthEvents s = NilMap \<and> spoPredicate (spo a) \<noteq> ''is'' \<and>
       spoObject (spo a) \<noteq> ''idle'' \<and> keywordsArg a \<noteq> []))"
proof (cases "kwStrengthEvents s")
  case NilMap
  then show ?thesis
    by (cases "embeddings s")
       (simp_all add: AddEvent_def Let_def mapSet_def bumpAll_NilMap split: option.splits)
next
  case (GoMap k)
  then have "kwStrengthEvents s \<noteq> NilMap" by simp
  from bumpAll_returns[OF this, of "map ToLower (keywordsArg a)"] GoMap
  show ?thesis
    by (cases "embeddings s")
       (auto simp: AddEvent_def Let_def mapSet_def split: option.splits)
qed

lemma AddEvent_returns:
  assumes "embeddings s \<noteq> NilMap" and "kwStrengthEvents s \<noteq> NilMap"
  shows "\<exists>s' n. AddEvent s a = Some (s', n) \<and> embeddings s' \<noteq> NilMap \<and>
           kwStrengthEvents s' \<noteq> NilMap"
proof -
  from assms have "AddEvent s a \<noteq> None"
    by (simp add: AddEvent_None_iff)
  then obtain s' n where r: "AddEvent s a = Some (s', n)"
    by (cases "AddEvent s a") auto
  from bumpAll_returns[OF assms(2), of "map ToLower (keywordsArg a)"]
  obtain f where f: "bumpAll (kwStrengthEvents s) (map ToLower (keywordsArg a)) = Some (GoMap f)"
    by blast
  from r f assms have "embeddings s' \<noteq> NilMap \<and> kwStrengthEvents s' \<noteq> NilMap"
    by (auto simp: AddEvent_def Let_def mapSet_def split: option.splits gomap.splits if_splits)
  with r show ?thesis by blast
qed

lemma AddEvents_returns:
  "embeddings s \<noteq> NilMap \<Longrightarrow> kwStrengthEvents s \<noteq> NilMap \<Longrightarrow>
     \<exists>s' ns. AddEvents s as = Some (s', ns)"
proof (induction as arbitrary: s)
  case Nil
  then show ?case by simp
next
  case (Cons a as)
  from AddEvent_returns[OF Cons.prems, of a]
  obtain s1 n where a: "AddEvent s a = Some (s1, n)"
    and m: "embeddings s1 \<noteq> NilMap" "kwStrengthEvents s1 \<noteq> NilMap"
    by blast
  from Cons.IH[OF m] obtain s2 ms where "AddEvents s1 as = Some (s2, ms)"
    by blast
  with a show ?case by simp
qed

lemma AddEvents_ConsE:
  assumes "AddEvents s (a # as) = Some (s', ns)"
  obtains s1 n ms where "AddEvent s a = Some (s1, n)" and "AddEvents s1 as = Some (s', ms)"
    and "ns = n # ms"
  using assms by (auto split: option.splits)

lemma AddEvents_events:
  "AddEvents s as = Some (s', ns) \<Longrightarrow>
     events s' = rev (map Id ns) @ events s \<and>
     map Id ns = map int [length (nodes s) ..< length (nodes s) + length as] \<and>
     length (nodes s') = length (nodes s) + length as"
proof (induction as arbitrary: s s' ns)
  case Nil
  then show ?case by simp
next
  case (Cons a as)
  from Cons.prems obtain s1 n ms where a: "AddEvent s a = Some (s1, n)"
    and b: "AddEvents s1 as = Some (s', ms)" and eq: "ns = n # ms"
    by (rule AddEvents_ConsE)
  have s1: "events s1 = int (length (nodes s)) # events s" "length (nodes s1) = Suc (length (nodes s))"
     "Id n = int (length (nodes s))"
    using AddEvent_SomeE[OF a] by simp_all
  have u: "[length (nodes s) ..< length (nodes s) + length (a # as)]
             = length (nodes s) # [Suc (length (nodes s)) ..< Suc (length (nodes s)) + length as]"
    by (simp add: upt_conv_Cons del: upt_Suc)
  from Cons.IH[OF b] s1 eq show ?case
    unfolding u by simp
qed

text \<open>
  Claim C7, as stated, fails: \<open>NewAssociative\<close> keeps the caller's maps as they are
  passed, and on a store freshly created with a \<open>nil\<close> embedding map the first \<open>AddEvent\<close>
  call panics at \<open>store.embeddings[embeddingKey] = embedding\<close>; no call returns, so there
  is no list of length \<open>N\<close> after \<open>N\<close> calls.
\<close>

theorem AddEvent_nil_embeddings_counterexample:
  "AddEvent (NewAssociative NilMap (GoMap Map.empty) (GoMap Map.empty)) bobCooking = None \<and>
   AddEvents (NewAssociative NilMap (GoMap Map.empty) (GoMap Map.empty)) [bobCooking] = None"
  by (simp add: AddEvent_def NewAssociative_def bobCooking_def mapSet_def Let_def)

text \<open>
  Claim C7, amended: on a store freshly created with an embedding map and an event
  keyword-strength map that are not \<open>nil\<close>, every sequence of \<open>N\<close> calls of \<open>AddEvent\<close>
  returns, and afterwards \<open>GetLatestEventIds\<close> has length \<open>N\<close>, lists the ids of the
  returned nodes newest first (the reverse of the insertion order, that is \<open>N, ..., 1\<close>),
  is strictly decreasing, and its ids are distinct and nonzero.
\<close>

theorem GetLatestEventIds_after_AddEvents:
  assumes "e \<noteq> NilMap" and "k1 \<noteq> NilMap"
  shows "\<exists>store ns.
           AddEvents (NewAssociative e k1 k2) as = Some (store, ns) \<and>
           length (GetLatestEventIds store) = length as \<and>
           GetLatestEventIds store = rev (map Id ns) \<and>
           GetLatestEventIds store = map int (rev [1 ..< Suc (length as)]) \<and>
           sorted_wrt (>) (GetLatestEventIds store) \<and>
           distinct (GetLatestEventIds store) \<and>
           0 \<notin> set (GetLatestEventIds store)"
proof -
  let ?L = "map int (rev [1 ..< Suc (length as)])"
  have n: "length (nodes (NewAssociative e k1 k2)) = 1" "events (NewAssociative e k1 k2) = []"
    by (simp_all add: NewAssociative_def)
  have "embeddings (NewAssociative e k1 k2) \<noteq> NilMap"
    "kwStrengthEvents (NewAssociative e k1 k2) \<noteq> NilMap"
    using assms by (simp_all add: NewAssociative_def)
  from AddEvents_returns[OF this, of as]
  obtain store ns where r: "AddEvents (NewAssociative e k1 k2) as = Some (store, ns)"
    by blast
  from AddEvents_events[OF r] n
  have ev: "events store = rev (map Id ns)" and ids: "map Id ns = map int [1 ..< Suc (length as)]"
    by simp_all
  have g: "GetLatestEventIds store = ?L"
    using ev ids by (simp add: GetLatestEventIds_def rev_map)
  have d: "?L = rev (map Id ns)"
    using ids by (simp only: rev_map)
  have l: "length ?L = length as"
    by (simp del: upt_Suc)
  have "sorted_wrt (<) (map int [1 ..< Suc (length as)])"
    by (simp add: sorted_wrt_map del: upt_Suc)
  then have "sorted_wrt (>) (rev (map int [1 ..< Suc (length as)]))"
    by (simp only: sorted_wrt_rev)
  then have s: "sorted_wrt (>) ?L"
    by (simp only: rev_map)
  have di: "distinct ?L"
    by (simp add: distinct_map del: upt_Suc)
  have z: "0 \<notin> set ?L"
    by (auto simp del: upt_Suc)
  have "length (GetLatestEventIds store) = length as \<and>
        GetLatestEventIds store = rev (map Id ns) \<and>
        GetLatestEventIds store = map int (rev [1 ..< Suc (length as)]) \<and>
        sorted_wrt (>) (GetLatestEventIds store) \<and>
        distinct (GetLatestEventIds store) \<and>
        0 \<notin> set (GetLatestEventIds store)"
    unfolding g by (intro conjI l d refl s di z)
  with r show ?thesis by blast
qed

theorem GetLatestEventIds_after_AddEvents_witness:
  "\<exists>store ns.
     AddEvents (NewAssociative (GoMap Map.empty) (GoMap Map.empty) NilMap) [bobCooking, bobCooking]
       = Some (store, ns) \<and>
     GetLatestEventIds store = [2, 1]"
proof -
  have e: "GoMap Map.empty \<noteq> (NilMap :: (string, float64 list) gomap)"
    and k: "GoMap Map.empty \<noteq> (NilMap :: (string, int) gomap)"
    by simp_all
  from GetLatestEventIds_after_AddEvents[OF e k, of NilMap "[bobCooking, bobCooking]"]
  obtain store ns where
    r: "AddEvents (NewAssociative (GoMap Map.empty) (GoMap Map.empty) NilMap) [bobCooking, bobCooking]
          = Some (store, ns)"
    and g: "GetLatestEventIds store = map int (rev [1 ..< Suc (length [bobCooking, bobCooking])])"
    by blast
  have "map int (rev [1 ..< Suc (length [bobCooking, bobCooking])]) = [2, 1]"
    by (simp add: upt_rec)
  with r g show ?thesis by (intro exI[of _ store] exI[of _ ns]) (simp only: simp_thms)
qed

text \<open>The type ordinal of a new event or thought is the number of nodes of its type.\<close>

lemma AddEvent_TypeCount:
  "AddEvent s a = Some (s', n) \<Longrightarrow> TypeCount n = int (length (events s))"
  by (rule AddEvent_SomeE(5))

lemma AddThought_TypeCount:
  "AddThought s a = Some (s', n) \<Longrightarrow> TypeCount n = int (length (thoughts s))"
  by (auto simp: AddThought_def Let_def split: option.splits)

text \<open>\<open>AddChat\<close> counts the thoughts, not the chats.\<close>

lemma AddChat_TypeCount:
  "AddChat s a = Some (s', n) \<Longrightarrow> TypeCount n = int (length (thoughts s))"
  by (auto simp: AddChat_def Let_def split: option.splits)

text \<open>
  Claim C6 fails for \<open>AddChat\<close>: on a store holding one thought and no chat, the first chat
  node gets the type ordinal 1, where the claim says 0 (the number of chat nodes).
\<close>

theorem AddChat_TypeCount_after_thought:
  "\<exists>s1 t s2 c.
      AddThought (NewAssociative (GoMap Map.empty) (GoMap Map.empty) (GoMap Map.empty)) bobCooking
        = Some (s1, t) \<and>
      chats s1 = [] \<and>
      AddChat s1 bobCooking = Some (s2, c) \<and>
      TypeCount c = 1"
  by (simp add: bobCooking_def AddThought_def AddChat_def NewAssociative_def mapSet_def Let_def)

text \<open>Both retrieval functions read the thought index.\<close>

lemma RetrieveRelevantEvents_eq_Thoughts:
  "RetrieveRelevantEvents store s p ob = RetrieveRelevantThoughts store s p ob"
  by (simp add: RetrieveRelevantEvents_def RetrieveRelevantThoughts_def)

text \<open>
  Claim C5 fails: after one event with the keywords \<open>bob\<close> and \<open>cooking\<close> is added to a
  fresh store, the event index lists node 1 under both, and \<open>RetrieveRelevantEvents\<close>
  returns the empty set.
\<close>

theorem RetrieveRelevantEvents_misses_event:
  "\<exists>store node.
     AddEvent (NewAssociative (GoMap Map.empty) (GoMap Map.empty) (GoMap Map.empty)) bobCooking
       = Some (store, node) \<and>
     RetrieveRelevantEvents store ''bob'' ''is'' ''cooking'' = {} \<and>
     eventIndexUnion store ''bob'' ''is'' ''cooking'' = {1}"
  by (simp add: bobCooking_def AddEvent_def NewAssociative_def RetrieveRelevantEvents_def
      eventIndexUnion_def idsOf_def prependId_def ToLower_def lowerChar_def mapSet_def Let_def)

section \<open>Properties of the pathfinder\<close>

text \<open>
  Claim C2 fails on the code.  In a corridor of three tiles with a wall in the middle the
  right end cannot be reached from the left end; the wavefront loop runs to its cap of 150
  with the end tile still at distance 0, and \<open>Pathfind\<close> reports nothing: it returns the
  one-tile path that holds the end tile and not the start tile.
\<close>

theorem Pathfind_unreachable_no_error:
  "New 3 1 [[False, True, False]] [[(), (), ()]] = Some walledCorridor \<and>
   distAfterWavefront walledCorridor \<lparr> X = 0, Y = 0 \<rparr> \<lparr> X = 2, Y = 0 \<rparr> ! 0 ! 2 = 0 \<and>
   Pathfind walledCorridor \<lparr> X = 0, Y = 0 \<rparr> \<lparr> X = 2, Y = 0 \<rparr> = Some [\<lparr> X = 2, Y = 0 \<rparr>]"
proof (intro conjI)
  show "New 3 1 [[False, True, False]] [[(), (), ()]] = Some walledCorridor"
    by (simp add: New_def walledCorridor_def)
  show "distAfterWavefront walledCorridor \<lparr> X = 0, Y = 0 \<rparr> \<lparr> X = 2, Y = 0 \<rparr> ! 0 ! 2 = 0"
    by code_simp
  show "Pathfind walledCorridor \<lparr> X = 0, Y = 0 \<rparr> \<lparr> X = 2, Y = 0 \<rparr> = Some [\<lparr> X = 2, Y = 0 \<rparr>]"
    by code_simp
qed

text \<open>
  The same happens whenever the wavefront loop ends with the end tile unreached: the
  reconstruction loop \<open>for k > 1\<close> is skipped and the end tile alone is returned.
\<close>

lemma Pathfind_unreached:
  assumes "inGrid (tiles m) startTile" and "inGrid (tiles m) endTile"
    and "distAfterWavefront m startTile endTile ! nat (Y endTile) ! nat (X endTile) = 0"
  shows "Pathfind m startTile endTile = Some [endTile]"
proof -
  have "walk (distAfterWavefront m startTile endTile) (nat (Y endTile)) (nat (X endTile)) 0
          [endTile] = Some [endTile]"
    by (subst walk.simps) simp
  then show ?thesis
    using assms by (simp add: Pathfind_def Let_def)
qed

text \<open>
  A path to a tile that is reached runs from the start tile to the end tile, as the
  caller expects of every path (it drops the first tile as the persona's own).  In an open
  corridor of 152 tiles the far end is 151 steps away, beyond the cap: it can be reached,
  and \<open>Pathfind\<close> returns the end tile alone as well.
\<close>

lemma Pathfind_open_corridor:
  "Pathfind openCorridor \<lparr> X = 0, Y = 0 \<rparr> \<lparr> X = 2, Y = 0 \<rparr>
     = Some [\<lparr> X = 0, Y = 0 \<rparr>, \<lparr> X = 1, Y = 0 \<rparr>, \<lparr> X = 2, Y = 0 \<rparr>]"
  by code_simp

lemma Pathfind_beyond_cap:
  "Pathfind longCorridor \<lparr> X = 0, Y = 0 \<rparr> \<lparr> X = 151, Y = 0 \<rparr> = Some [\<lparr> X = 151, Y = 0 \<rparr>]"
  by code_simp

text \<open>The two cases of the repository's test: a query from a tile to itself, and the
  route of 22 tiles across the test maze.\<close>

lemma Pathfind_same_tile:
  "Pathfind testMaze \<lparr> X = 1, Y = 0 \<rparr> \<lparr> X = 1, Y = 0 \<rparr> = Some [\<lparr> X = 1, Y = 0 \<rparr>]"
  by code_simp

lemma Pathfind_test_route:
  "map_option (map (\<lambda>p. (X p, Y p))) (Pathfind testMaze \<lparr> X = 0, Y = 1 \<rparr> \<lparr> X = 12, Y = 6 \<rparr>)
     = Some [(0, 1), (1, 1), (1, 2), (1, 3), (1, 4), (2, 4), (3, 4), (4, 4), (5, 4), (6, 4),
             (7, 4), (7, 3), (7, 2), (8, 2), (9, 2), (9, 3), (9, 4), (10, 4), (11, 4), (11, 5),
             (11, 6), (12, 6)]"
  by code_simp

text \<open>A path that is returned starts from the given partial path: it is never empty and
  it ends at the end tile.\<close>

lemma walk_extends:
  "walk d i j k path = Some q \<Longrightarrow> \<exists>r. q = path @ r"
proof (induction d i j k path rule: walk.induct)
  case (1 d i j k path)
  note w = walk.simps[of d i j k path]
  show ?case
  proof (cases "k > 1")
    case False
    with "1.prems" show ?thesis by (simp add: w)
  next
    case k: True
    show ?thesis
    proof (cases "i > 0 \<and> d ! (i - 1) ! j = k - 1")
      case north: True
      have "walk d i j k path = walk d (i - 1) j (k - 1) (path @ [\<lparr> X = int j, Y = int (i - 1) \<rparr>])"
        by (simp only: w k north if_True if_False simp_thms)
      with "1.prems" have "walk d (i - 1) j (k - 1) (path @ [\<lparr> X = int j, Y = int (i - 1) \<rparr>]) = Some q"
        by simp
      from "1.IH"(1)[OF k north this] show ?thesis by auto
    next
      case north: False
      show ?thesis
      proof (cases "j > 0 \<and> d ! i ! (j - 1) = k - 1")
        case west: True
        have "walk d i j k path = walk d i (j - 1) (k - 1) (path @ [\<lparr> X = int (j - 1), Y = int i \<rparr>])"
          by (simp only: w k north west if_True if_False simp_thms)
        with "1.prems" have "walk d i (j - 1) (k - 1) (path @ [\<lparr> X = int (j - 1), Y = int i \<rparr>]) = Some q"
          by simp
        from "1.IH"(2)[OF k north west this] show ?thesis by auto
      next
        case west: False
        show ?thesis
        proof (cases "i < length d - 1 \<and> d ! (i + 1) ! j = k - 1")
          case south: True
          have "walk d i j k path = walk d (i + 1) j (k - 1) (path @ [\<lparr> X = int j, Y = int (i + 1) \<rparr>])"
            by (simp only: w k north west south if_True if_False simp_thms)
          with "1.prems" have "walk d (i + 1) j (k - 1) (path @ [\<lparr> X = int j, Y = int (i + 1) \<rparr>]) = Some q"
            by simp
          from "1.IH"(3)[OF k north west south this] show ?thesis by auto
        next
          case south: False
          show ?thesis
          proof (cases "j < length (d ! i) - 1 \<and> d ! i ! (j + 1) = k - 1")
            case east: True
            have "walk d i j k path = walk d i (j + 1) (k - 1) (path @ [\<lparr> X = int (j + 1), Y = int i \<rparr>])"
              by (simp only: w k north west south east if_True if_False simp_thms)
            with "1.prems" have "walk d i (j + 1) (k - 1) (path @ [\<lparr> X = int (j + 1), Y = int i \<rparr>]) = Some q"
              by simp
            from "1.IH"(4)[OF k north west south east this] show ?thesis by auto
          next
            case east: False
            have "walk d i j k path = None"
              by (simp only: w k north west south east if_True if_False simp_thms)
            with "1.prems" show ?thesis
              by simp
          qed
        qed
      qed
    qed
  qed
qed

lemma Pathfind_ends_at_end:
  assumes "Pathfind m startTile endTile = Some path"
  shows "path \<noteq> [] \<and> last path = endTile"
proof -
  from assms obtain q where
    q: "walk (distAfterWavefront m startTile endTile) (nat (Y endTile)) (nat (X endTile))
          (distAfterWavefront m startTile endTile ! nat (Y endTile) ! nat (X endTile)) [endTile]
        = Some q"
    and p: "path = rev q"
    by (auto simp: Pathfind_def Let_def split: if_splits)
  from walk_extends[OF q] obtain r where "q = [endTile] @ r" by blast
  with p show ?thesis by simp
qed

text \<open>A wall tile is never given a distance: every write of a step goes to a tile that the
  collision grid leaves free.\<close>

lemma setCell_other:
  assumes "a \<noteq> i \<or> b \<noteq> j"
  shows "setCell d i j v ! a ! b = d ! a ! b"
proof (cases "a = i")
  case False
  then show ?thesis by (simp add: setCell_def)
next
  case True
  with assms have b: "b \<noteq> j" by simp
  show ?thesis
  proof (cases "i < length d")
    case True
    with \<open>a = i\<close> b show ?thesis by (simp add: setCell_def)
  next
    case False
    then show ?thesis by (simp add: setCell_def list_update_beyond)
  qed
qed

lemma write_wall:
  assumes "collision ! a ! b"
  shows "(if A \<and> B \<and> \<not> collision ! i ! j then setCell d i j v else d) ! a ! b = d ! a ! b"
proof (cases "A \<and> B \<and> \<not> collision ! i ! j")
  case True
  with assms have "a \<noteq> i \<or> b \<noteq> j" by auto
  from setCell_other[OF this] True show ?thesis
    by (simp only: if_True simp_thms)
next
  case False
  show ?thesis
    by (simp only: False if_False)
qed

lemma visitCell_wall:
  assumes "collision ! a ! b"
  shows "visitCell collision k d cell ! a ! b = d ! a ! b"
proof -
  obtain i j where c: "cell = (i, j)" by (cases cell)
  define d1 where "d1 = (if i > 0 \<and> d ! (i - 1) ! j = 0 \<and> \<not> collision ! (i - 1) ! j
                          then setCell d (i - 1) j (k + 1) else d)"
  define d2 where "d2 = (if j > 0 \<and> d1 ! i ! (j - 1) = 0 \<and> \<not> collision ! i ! (j - 1)
                          then setCell d1 i (j - 1) (k + 1) else d1)"
  define d3 where "d3 = (if i < length d2 - 1 \<and> d2 ! (i + 1) ! j = 0 \<and> \<not> collision ! (i + 1) ! j
                          then setCell d2 (i + 1) j (k + 1) else d2)"
  define d4 where "d4 = (if j < length (d3 ! i) - 1 \<and> d3 ! i ! (j + 1) = 0 \<and> \<not> collision ! i ! (j + 1)
                          then setCell d3 i (j + 1) (k + 1) else d3)"
  have v: "visitCell collision k d cell = (if d ! i ! j \<noteq> k then d else d4)"
    unfolding c visitCell_def d4_def d3_def d2_def d1_def
    by (simp only: Let_def prod.case)
  have "d4 ! a ! b = d3 ! a ! b"
    unfolding d4_def by (rule write_wall[OF assms])
  also have "\<dots> = d2 ! a ! b"
    unfolding d3_def by (rule write_wall[OF assms])
  also have "\<dots> = d1 ! a ! b"
    unfolding d2_def by (rule write_wall[OF assms])
  also have "\<dots> = d ! a ! b"
    unfolding d1_def by (rule write_wall[OF assms])
  finally show ?thesis
    unfolding v by simp
qed

lemma makeStep_wall:
  assumes "collision ! a ! b"
  shows "makeStep collision d k ! a ! b = d ! a ! b"
proof -
  have "foldl (visitCell collision k) d cs ! a ! b = d ! a ! b" for cs
    by (induction cs arbitrary: d) (simp_all add: visitCell_wall[OF assms])
  then show ?thesis by (simp add: makeStep_def)
qed

lemma wavefront_wall:
  assumes "collision ! a ! b"
  shows "wavefront collision ei ej loopMax k d ! a ! b = d ! a ! b"
  by (induction loopMax arbitrary: k d) (simp_all add: makeStep_wall[OF assms])

text \<open>So a walled end tile other than the start is never reached, and \<open>Pathfind\<close> returns
  the end tile alone.\<close>

lemma Pathfind_walled_end:
  assumes s: "inGrid (tiles m) startTile" and e: "inGrid (tiles m) endTile"
    and ne: "startTile \<noteq> endTile"
    and wall: "collisionInfo m ! nat (Y endTile) ! nat (X endTile)"
  shows "Pathfind m startTile endTile = Some [endTile]"
proof -
  let ?zeros = "map (\<lambda>row. replicate (length row) (0 :: int)) (tiles m)"
  have pos: "nat (Y endTile) \<noteq> nat (Y startTile) \<or> nat (X endTile) \<noteq> nat (X startTile)"
    using s e ne by (cases startTile, cases endTile) (auto simp: inGrid_def)
  have "distAfterWavefront m startTile endTile ! nat (Y endTile) ! nat (X endTile)
          = setCell ?zeros (nat (Y startTile)) (nat (X startTile)) 1 ! nat (Y endTile) ! nat (X endTile)"
    unfolding distAfterWavefront_def by (rule wavefront_wall[OF wall])
  also have "\<dots> = ?zeros ! nat (Y endTile) ! nat (X endTile)"
    by (rule setCell_other[OF pos])
  also have "\<dots> = 0"
    using e by (simp add: inGrid_def)
  finally have z: "distAfterWavefront m startTile endTile ! nat (Y endTile) ! nat (X endTile) = 0" .
  have "walk (distAfterWavefront m startTile endTile) (nat (Y endTile)) (nat (X endTile)) 0
          [endTile] = Some [endTile]"
    by (subst walk.simps) simp
  then show ?thesis
    using s e z by (simp add: Pathfind_def Let_def)
qed

section \<open>Properties of the reaction splice\<close>

lemma totalMinutes_append:
  "totalMinutes (xs @ ys) = totalMinutes xs + totalMinutes ys"
  by (simp add: totalMinutes_def)

lemma totalMinutes_take_drop:
  "totalMinutes (take n xs) + totalMinutes (drop n xs) = totalMinutes xs"
  using totalMinutes_append[of "take n xs" "drop n xs"] by simp

lemma DailySchedule_SetActivity:
  "DailySchedule (SetActivity s a d de pr sp od op os) = DailySchedule s"
  by (simp add: SetActivity_def)

lemma DailySchedule_SetChatActivity:
  "DailySchedule (SetChatActivity s a d de pr sp cw cl cb ce) = DailySchedule s"
  by (simp add: SetChatActivity_def)

text \<open>What the splice does to the schedule, when \<open>createReact\<close> returns.\<close>

lemma createReact_schedule:
  assumes "createReact generate p summary duration address spoArg actStartTime pronunciato
             chattingWith chatLog chattingWithBuffer chatEndTime = Some p'"
  shows "\<exists>startTime endTime startIndex endIndex.
           reactWindow p = Some (startTime, endTime) \<and>
           findIndices (DailySchedule (state p)) startTime endTime 0 (StartOfDay p) (-1, -1)
             = (startIndex, endIndex) \<and>
           0 \<le> startIndex \<and> 0 \<le> endIndex \<and>
           DailySchedule (state p') =
             take (nat startIndex) (DailySchedule (state p))
               @ generate p \<lparr> Activity = summary, Duration = duration \<rparr> startTime endTime
               @ drop (nat endIndex) (DailySchedule (state p))"
  using assms
  by (auto simp: createReact_def Let_def DailySchedule_SetActivity DailySchedule_SetChatActivity
      split: option.splits prod.splits if_splits)

text \<open>
  The total is kept when the new plans last as long as the entries they replace, the
  entries from \<open>startIndex\<close> up to \<open>endIndex\<close>.
\<close>

lemma createReact_total_replaced:
  assumes r: "createReact generate p summary duration address spoArg actStartTime pronunciato
             chattingWith chatLog chattingWithBuffer chatEndTime = Some p'"
    and w: "reactWindow p = Some (startTime, endTime)"
    and f: "findIndices (DailySchedule (state p)) startTime endTime 0 (StartOfDay p) (-1, -1)
             = (startIndex, endIndex)"
    and g: "totalMinutes (generate p \<lparr> Activity = summary, Duration = duration \<rparr> startTime endTime)
             = totalMinutes (take (nat endIndex) (DailySchedule (state p)))
               - totalMinutes (take (nat startIndex) (DailySchedule (state p)))"
  shows "totalMinutes (DailySchedule (state p')) = totalMinutes (DailySchedule (state p))"
proof -
  from createReact_schedule[OF r] w f
  have "DailySchedule (state p') =
          take (nat startIndex) (DailySchedule (state p))
            @ generate p \<lparr> Activity = summary, Duration = duration \<rparr> startTime endTime
            @ drop (nat endIndex) (DailySchedule (state p))"
    by simp
  then show ?thesis
    using g totalMinutes_take_drop[of "nat endIndex" "DailySchedule (state p)"]
    by (simp add: totalMinutes_append)
qed

text \<open>
  A first reaction keeps the total: at 01:10 Ann's window is 01:00 to 03:00, both times
  begin an entry of her schedule, and the chat splice yields the daily schedule of \<open>ann\<close>.
\<close>

lemma createReact_first_splice:
  "reactWindow annMorning = Some (60 * Minute, 180 * Minute) \<and>
   map_option (\<lambda>p. DailySchedule (state p))
     (createReact chatSchedule annMorning ''chatting'' 20
        \<lparr> world = ''<persona> bob'', sector = [], arena = [], object = [] \<rparr>
        (SPO ''ann'' ''chat with'' ''bob'') 0 ''chat'' ''bob'' [] [(''bob'', 800)] (90 * Minute))
     = Some (DailySchedule ann)"
  by (simp add: createReact_def annMorning_def ann_def chatSchedule_def reactWindow_def
      GetOriginalDailyPlanIndex_def GetOriginalDailyPlanIndexInMinutes_def timeElapsedToday_def
      Minute_def Hour_def StartOfDay_def totalMinutes_def SetChatActivity_def Let_def)

text \<open>
  Claim C3 fails.  Ann's daily schedule sums to 1440 minutes; at 02:10 the window of a
  reaction is 02:00 to 04:00, and the replacement plans sum to its 120 minutes.  No entry
  of her daily schedule begins at 02:00: the loop picks the entry that begins at 03:00 as
  the start of the splice and keeps the 60 minutes before it, so the spliced schedule sums
  to 1500 minutes.
\<close>

theorem createReact_breaks_day_total:
  "totalMinutes (DailySchedule (state annTwoEvents)) = 1440 \<and>
   reactWindow annTwoEvents = Some (120 * Minute, 240 * Minute) \<and>
   totalMinutes (waitSchedule annTwoEvents
                   \<lparr> Activity = ''waiting to start cooking'', Duration = 30 \<rparr>
                   (120 * Minute) (240 * Minute))
     = windowMinutes (120 * Minute) (240 * Minute) \<and>
   map_option (\<lambda>p. totalMinutes (DailySchedule (state p)))
     (createReact waitSchedule annTwoEvents ''waiting to start cooking'' 30
        \<lparr> world = ''<waiting> X'', sector = '' 0, Y'', arena = '' 0'', object = [] \<rparr>
        (SPO ''ann'' ''waiting to start'' ''cooking'') 0 ''wait'' [] [] [] 0)
     = Some 1500"
  by (simp add: createReact_def annTwoEvents_def ann_def waitSchedule_def reactWindow_def
      GetOriginalDailyPlanIndex_def GetOriginalDailyPlanIndexInMinutes_def timeElapsedToday_def
      Minute_def Hour_def StartOfDay_def totalMinutes_def windowMinutes_def SetActivity_def
      Let_def)

section \<open>Properties of the retrieval\<close>

lemmas retrieval_defs =
  retrieveForFocalPoints_def finalScores_def candidates_def latestIds_def
  GetLatestEventIds_def GetLatestThoughtIds_def GetNode_def nodeAt_def
  extractRecency_def extractImportance_def extractValence_def extractRelevance_def
  PersonaGetEmbedding_def GetEmbedding_def SaveEmbedding_def GetEmbeddingByNodeId_def
  cosineSimilarity_def normalizeMap_def clampAndFlip_def lookup0_def highestNValues_def
  UpdateNode_def AddEvent_def NewAssociative_def emptyStore_def mapGet_def mapSet_def
  Let_def

text \<open>The two calls that build the store of \<open>annTwoEvents\<close> return.\<close>

lemma annTwoEvents_returns:
  "\<exists>ns. AddEvents emptyStore [memEvent 1 1, memEvent 2 2]
          = Some (associativeMemory annTwoEvents, ns)"
  by (simp add: annTwoEvents_def emptyStore_def NewAssociative_def AddEvent_def memEvent_def
      mapSet_def Let_def)

text \<open>An assignment to a key that the map does not hold adds the entry at the end.\<close>

lemma update_new_key:
  "k \<notin> fst ` set al \<Longrightarrow> AList.update k v al = al @ [(k, v)]"
  by (induction al) auto

lemma foldl_update_distinct:
  "distinct (map fst acc @ map snd xs) \<Longrightarrow>
     foldl (\<lambda>out (i, node). AList.update node (f i) out) acc xs
       = acc @ map (\<lambda>(i, node). (node, f i)) xs"
proof (induction xs arbitrary: acc)
  case Nil
  then show ?case by simp
next
  case (Cons x xs)
  obtain i node where x: "x = (i, node)" by (cases x)
  from Cons.prems x have new: "node \<notin> fst ` set acc"
    by auto
  from Cons.prems x have d: "distinct (map fst (acc @ [(node, f i)]) @ map snd xs)"
    by auto
  show ?case
    using Cons.IH[OF d] by (simp add: x update_new_key[OF new])
qed

lemma extractRecency_distinct:
  assumes "distinct ns"
  shows "extractRecency p ns = zip ns (map (\<lambda>i. RecencyDecay (state p) ^ (i + 1)) [0 ..< length ns])"
proof -
  have "distinct (map fst ([] :: (NodeId \<times> float64) list) @ map snd (zip [0 ..< length ns] ns))"
    using assms by simp
  from foldl_update_distinct[OF this, of "\<lambda>i. RecencyDecay (state p) ^ (i + 1)"]
  have "extractRecency p ns
          = map (\<lambda>(i, node). (node, RecencyDecay (state p) ^ (i + 1))) (zip [0 ..< length ns] ns)"
    by (simp add: extractRecency_def)
  also have "\<dots> = zip ns (map (\<lambda>i. RecencyDecay (state p) ^ (i + 1)) [0 ..< length ns])"
    by (rule nth_equalityI) simp_all
  finally show ?thesis .
qed


lemma lastPosition_snoc:
  "lastPosition (xs @ [x]) y = (if y = x then length xs else lastPosition xs y)"
  by (simp add: lastPosition_def)


text \<open>In a list without repetitions the last position of an element is its position.\<close>

lemma lastPosition_nth:
  "distinct ns \<Longrightarrow> i < length ns \<Longrightarrow> lastPosition ns (ns ! i) = i"
proof (induction ns rule: rev_induct)
  case Nil
  then show ?case by simp
next
  case (snoc x xs)
  show ?case
  proof (cases "i = length xs")
    case True
    then show ?thesis by (simp add: lastPosition_snoc)
  next
    case False
    with snoc.prems have i: "i < length xs" by simp
    with snoc.prems have "xs ! i \<noteq> x" by auto
    with snoc.IH i snoc.prems show ?thesis
      by (simp add: lastPosition_snoc nth_append)
  qed
qed

text \<open>The candidate list repeats no id when the latest-id lists do not, as after any
  sequence of \<open>AddEvent\<close> calls on a fresh store.\<close>

lemma candidates_distinct:
  "distinct (latestIds p) \<Longrightarrow> candidates p = Some ns \<Longrightarrow> distinct ns"
  by (auto simp: candidates_def Let_def split: if_splits)

lemma latestIds_after_AddEvents:
  assumes "AddEvents (NewAssociative e k1 k2) as = Some (store, ns)"
    and "associativeMemory p = store"
  shows "distinct (latestIds p)"
proof -
  have n: "length (nodes (NewAssociative e k1 k2)) = 1" "events (NewAssociative e k1 k2) = []"
    "thoughts (NewAssociative e k1 k2) = []"
    by (simp_all add: NewAssociative_def)
  have t: "thoughts s' = thoughts s" if "AddEvents s bs = Some (s', ms)" for s s' bs ms
    using that
  proof (induction bs arbitrary: s s' ms)
    case Nil
    then show ?case by simp
  next
    case (Cons b bs)
    from Cons.prems obtain s1 m ms' where a: "AddEvent s b = Some (s1, m)"
      and b: "AddEvents s1 bs = Some (s', ms')"
      by (rule AddEvents_ConsE)
    from Cons.IH[OF b] AddEvent_SomeE(3)[OF a] show ?case by simp
  qed
  from AddEvents_events[OF assms(1)] n
  have ev: "events store = rev (map Id ns)" and ids: "map Id ns = map int [1 ..< Suc (length as)]"
    by simp_all
  have "distinct (map int [1 ..< Suc (length as)])"
    by (simp add: distinct_map del: upt_Suc)
  then have "distinct (events store)"
    unfolding ev ids by (simp only: distinct_rev)
  moreover from t[OF assms(1)] n have "thoughts store = []" by simp
  ultimately show ?thesis
    using assms(2) by (simp add: latestIds_def GetLatestEventIds_def GetLatestThoughtIds_def)
qed




text \<open>The options never reach the configuration.\<close>

lemma retrieveForFocalPoints_opts:
  "retrieveForFocalPoints embedder p focalPoints opts
     = retrieveForFocalPoints embedder p focalPoints []"
  by (simp add: retrieveForFocalPoints_def)

text \<open>
  Claim C10 fails: asked for one node (\<open>withRetrievalCount 1\<close>), the retrieval on Ann's two
  memories returns both.
\<close>

theorem retrieveForFocalPoints_ignores_count:
  "map_option (\<lambda>(retrieved, p). retrieved ''bob'')
     (retrieveForFocalPoints unitEmbedder annTwoEvents [''bob''] [withRetrievalCount 1])
   = Some (Some [1, 2])"
  by (simp add: annTwoEvents_def ann_def memEvent_def unitEmbedder_def retrieval_defs upt_rec)

text \<open>What a sequence of \<open>AddEvent\<close> calls stores in the new nodes.\<close>

lemma AddEvents_nodes:
  "AddEvents s as = Some (s', ns) \<Longrightarrow>
     nodes s' = nodes s @ ns \<and> thoughts s' = thoughts s \<and>
     map Importance ns = map importance as \<and>
     map Valence ns = map valence as \<and>
     map LastAccessed ns = map created as \<and>
     map EmbeddingKey ns = map embeddingKey as"
proof (induction as arbitrary: s s' ns)
  case Nil
  then show ?case by simp
next
  case (Cons a as)
  from Cons.prems obtain s1 n ms where a: "AddEvent s a = Some (s1, n)"
    and b: "AddEvents s1 as = Some (s', ms)" and eq: "ns = n # ms"
    by (rule AddEvents_ConsE)
  from Cons.IH[OF b] eq AddEvent_SomeE[OF a] show ?case
    by simp
qed

lemma AddEvents_embeddings:
  "AddEvents s as = Some (s', ns) \<Longrightarrow> as \<noteq> [] \<Longrightarrow>
     list_all (\<lambda>a. embeddingKey a = k \<and> embedding a = e) as \<Longrightarrow>
     mapGet (embeddings s') k = Some e"
proof (induction as arbitrary: s s' ns)
  case Nil
  then show ?case by simp
next
  case (Cons a as)
  from Cons.prems(1) obtain s1 n ms where a: "AddEvent s a = Some (s1, n)"
    and b: "AddEvents s1 as = Some (s', ms)"
    by (rule AddEvents_ConsE)
  show ?case
  proof (cases "as = []")
    case True
    with b have "s' = s1" by simp
    with Cons.prems(3) AddEvent_SomeE(10)[OF a] show ?thesis by simp
  next
    case False
    from Cons.IH[OF b False] Cons.prems(3) show ?thesis by simp
  qed
qed

text \<open>The store with 31 memories, through the facts about it that the retrieval reads.\<close>

lemma crowdedArgs_nth:
  assumes "k < 31"
  shows "crowdedArgs ! k = (if k = 0 then memEvent 1 10 else memEvent (int k + 1) 1)"
proof (cases k)
  case 0
  then show ?thesis by (simp only: crowdedArgs_def nth_Cons_0) simp
next
  case (Suc j)
  have l: "length [2 .. 31 :: int] = 30"
    by (simp only: length_upto)
  have j: "j < length [2 .. 31 :: int]"
    using assms Suc unfolding l by simp
  have "(2 :: int) + int j \<le> 31"
    using assms Suc by simp
  then have n: "[2 .. 31 :: int] ! j = 2 + int j"
    by (rule nth_upto)
  have "crowdedArgs ! k = memEvent (2 + int j) 1"
    unfolding Suc crowdedArgs_def nth_Cons_Suc nth_map[OF j] n ..
  then show ?thesis using Suc by (simp add: add.commute)
qed

lemma length_crowdedArgs: "length crowdedArgs = 31"
  by (simp add: crowdedArgs_def)

text \<open>The 31 calls return: the maps of the fresh store are not \<open>nil\<close>.\<close>

lemma crowdedStore_returns:
  "\<exists>ns. AddEvents emptyStore crowdedArgs = Some (crowdedStore, ns)"
proof -
  have "embeddings emptyStore \<noteq> NilMap" "kwStrengthEvents emptyStore \<noteq> NilMap"
    by (simp_all add: emptyStore_def NewAssociative_def)
  from AddEvents_returns[OF this, of crowdedArgs]
  obtain s ns where "AddEvents emptyStore crowdedArgs = Some (s, ns)"
    by blast
  then show ?thesis by (simp add: crowdedStore_def)
qed

lemma crowdedStore_facts:
  "events crowdedStore = map int (rev [1 ..< 32])"
  "thoughts crowdedStore = []"
  "length (nodes crowdedStore) = 32"
  "mapGet (embeddings crowdedStore) ''bob is cooking'' = Some [1]"
proof -
  from crowdedStore_returns obtain ns where
    r: "AddEvents emptyStore crowdedArgs = Some (crowdedStore, ns)"
    by blast
  have n: "length (nodes emptyStore) = 1"
    "events emptyStore = []"
    "thoughts emptyStore = []"
    by (simp_all add: emptyStore_def NewAssociative_def)
  from AddEvents_events[OF r] n
  have "events crowdedStore = rev (map Id ns)" "map Id ns = map int [1 ..< 32]"
    and l: "length (nodes crowdedStore) = 32"
    by (simp_all add: length_crowdedArgs)
  then show "events crowdedStore = map int (rev [1 ..< 32])"
    by (simp only: rev_map)
  show "length (nodes crowdedStore) = 32" by (rule l)
  from AddEvents_nodes[OF r] n show "thoughts crowdedStore = []" by simp
  have "list_all (\<lambda>a. embeddingKey a = ''bob is cooking'' \<and> embedding a = [1]) crowdedArgs"
    by (simp add: crowdedArgs_def memEvent_def list_all_iff)
  from AddEvents_embeddings[OF r _ this]
  show "mapGet (embeddings crowdedStore) ''bob is cooking'' = Some [1]"
    by (simp add: crowdedArgs_def)
qed

lemma crowdedStore_node:
  assumes "1 \<le> n" and "n \<le> 31"
  shows "LastAccessed (nodeAt crowdedStore n) = n"
    and "Importance (nodeAt crowdedStore n) = (if n = 1 then 10 else 1)"
    and "Valence (nodeAt crowdedStore n) = 0"
    and "EmbeddingKey (nodeAt crowdedStore n) = ''bob is cooking''"
    and "GetNode crowdedStore n \<noteq> None"
proof -
  from crowdedStore_returns obtain ms where
    r: "AddEvents emptyStore crowdedArgs = Some (crowdedStore, ms)"
    by blast
  have z: "nodes emptyStore = [zeroNode]"
    by (simp add: emptyStore_def NewAssociative_def)
  from AddEvents_nodes[OF r] z
  have ns: "nodes crowdedStore = zeroNode # ms"
    and m: "map Importance ms = map importance crowdedArgs"
      "map Valence ms = map valence crowdedArgs"
      "map LastAccessed ms = map created crowdedArgs"
      "map EmbeddingKey ms = map embeddingKey crowdedArgs"
    by simp_all
  define k where "k = nat n - 1"
  have k: "k < 31" "nat n = Suc k" "int k + 1 = n" "(k = 0) = (n = 1)"
    using assms by (auto simp: k_def)
  have len: "length ms = 31"
    using arg_cong[OF m(1), of length] by (simp add: length_crowdedArgs)
  have at: "nodeAt crowdedStore n = ms ! k"
    by (simp add: nodeAt_def ns k)
  have f: "\<And>g h. map g ms = map h crowdedArgs \<Longrightarrow> g (ms ! k) = h (crowdedArgs ! k)"
    using len k(1) by (metis length_crowdedArgs nth_map)
  show "LastAccessed (nodeAt crowdedStore n) = n"
    using f[OF m(3)] k by (simp add: at crowdedArgs_nth memEvent_def)
  show "Importance (nodeAt crowdedStore n) = (if n = 1 then 10 else 1)"
    using f[OF m(1)] k by (simp add: at crowdedArgs_nth memEvent_def)
  show "Valence (nodeAt crowdedStore n) = 0"
    using f[OF m(2)] k by (simp add: at crowdedArgs_nth memEvent_def)
  show "EmbeddingKey (nodeAt crowdedStore n) = ''bob is cooking''"
    using f[OF m(4)] k by (simp add: at crowdedArgs_nth memEvent_def)
  show "GetNode crowdedStore n \<noteq> None"
    using assms by (simp add: GetNode_def crowdedStore_facts)
qed

lemma crowded_candidates: "candidates annCrowded = Some crowdedIds"
  by (simp add: candidates_def annCrowded_def latestIds_def GetLatestEventIds_def
      GetLatestThoughtIds_def crowdedStore_facts crowdedStore_node crowdedIds_def Let_def upt_rec)

lemma annCrowded_fields:
  "associativeMemory annCrowded = crowdedStore"
  "state annCrowded = ann"
  by (simp_all add: annCrowded_def)

lemma ann_fields:
  "RecencyDecay ann = 1 / 2"
  "RecencyWeight ann = 1"
  "ImportanceWeight ann = 2"
  "RelevanceWeight ann = 1"
  "ValenceWeight ann = 1"
  "CurrentTime ann = 130 * Minute"
  by (simp_all add: ann_def)

lemma cosineSimilarity_unit: "cosineSimilarity [1] [1] = Some 1"
  by (simp add: cosineSimilarity_def)

lemma crowded_recency:
  "normalizeMap (extractRecency annCrowded crowdedIds) 0 1
     = Some (map (\<lambda>n. (n, ((1 / 2) ^ nat n - (1 / 2) ^ 31) / (1 / 2 - (1 / 2) ^ 31))) crowdedIds)"
  by (simp add: extractRecency_def normalizeMap_def annCrowded_fields ann_fields crowdedIds_def
      upt_rec power_divide)

lemma crowded_importance:
  "normalizeMap (extractImportance annCrowded crowdedIds) 0 1
     = Some (map (\<lambda>n. (n, if n = 1 then 1 else 0)) crowdedIds)"
  by (simp add: extractImportance_def normalizeMap_def annCrowded_fields crowdedStore_node
      crowdedIds_def upt_rec)

lemma crowded_relevance:
  "extractRelevance unitEmbedder annCrowded crowdedIds ''bob is cooking''
     = Some (map (\<lambda>n. (n, 1)) crowdedIds, annCrowded)"
  by (simp add: extractRelevance_def PersonaGetEmbedding_def GetEmbedding_def
      GetEmbeddingByNodeId_def cosineSimilarity_unit annCrowded_fields crowdedStore_facts
      crowdedStore_node crowdedIds_def upt_rec)

lemma crowded_relevance_norm:
  "normalizeMap (map (\<lambda>n. (n, 1 :: real)) crowdedIds) 0 1
     = Some (map (\<lambda>n. (n, 1 / 2)) crowdedIds)"
  by (simp add: normalizeMap_def crowdedIds_def upt_rec)

lemma crowded_valence:
  "normalizeMap (clampAndFlip (extractValence annCrowded crowdedIds) 0) 0 1
     = Some (map (\<lambda>n. (n, 1 / 2)) crowdedIds)"
  by (simp add: extractValence_def clampAndFlip_def normalizeMap_def annCrowded_fields
      crowdedStore_node crowdedIds_def upt_rec)

lemma crowded_finalScores:
  "finalScores unitEmbedder annCrowded ''bob is cooking''
     = Some (map (\<lambda>n. (n, crowdedScore n)) crowdedIds, annCrowded)"
  by (simp add: finalScores_def crowded_candidates crowded_recency crowded_importance
        crowded_relevance crowded_relevance_norm crowded_valence annCrowded_fields ann_fields)
     (simp add: lookup0_def crowdedScore_def crowdedIds_def upt_rec power_divide)

lemma crowded_highest:
  "highestNValues (map (\<lambda>n. (n, crowdedScore n)) crowdedIds) 30
     = Some (map (\<lambda>n. (n, crowdedScore n)) (rev (tl crowdedIds)))"
  by (simp add: highestNValues_def crowdedScore_def crowdedIds_def upt_rec power_divide)

lemma UpdateNode_length:
  "UpdateNode store k f = Some store' \<Longrightarrow> length (nodes store') = length (nodes store)"
  by (auto simp: UpdateNode_def split: if_splits)

lemma touchAll_returns:
  "list_all (\<lambda>k. 0 \<le> k \<and> k < int (length (nodes store))) ks \<Longrightarrow>
     \<exists>store'. touchAll store now ks = Some store'"
proof (induction ks arbitrary: store)
  case Nil
  then show ?case by simp
next
  case (Cons k ks)
  then obtain s1 where u: "UpdateNode store k (\<lambda>c. c\<lparr> LastAccessed := now \<rparr>) = Some s1"
    by (auto simp: UpdateNode_def)
  from Cons.prems UpdateNode_length[OF u]
  have "list_all (\<lambda>k. 0 \<le> k \<and> k < int (length (nodes s1))) ks" by simp
  from Cons.IH[OF this] u show ?case by simp
qed

lemma retrieveForFocalPoints_single:
  assumes "finalScores embedder p focalPoint = Some (out, p1)"
    and "highestNValues out 30 = Some kept"
    and "touchAll (associativeMemory p1) (CurrentTime (state p1)) (map fst kept) = Some store"
  shows "retrieveForFocalPoints embedder p [focalPoint] opts
           = Some ([focalPoint \<mapsto> map fst kept], p1\<lparr> associativeMemory := store \<rparr>)"
  using assms by (simp add: retrieveForFocalPoints_def)

text \<open>\<open>highestNValues\<close> keeps a prefix of the ascending order: no kept value exceeds a
  dropped one.\<close>

lemma highestNValues_lowest:
  assumes "highestNValues m n = Some kept"
  shows "\<exists>dropped. sort_key snd m = kept @ dropped \<and>
           (\<forall>k \<in> set kept. \<forall>d \<in> set dropped. snd k \<le> snd d)"
proof -
  define j where
    "j = nat (if n > int (length (sort_key snd m)) then int (length (sort_key snd m)) else n)"
  from assms have k: "kept = take j (sort_key snd m)"
    by (simp add: highestNValues_def Let_def j_def split: if_splits)
  have "sorted (map snd (sort_key snd m))"
    by (rule sorted_sort_key)
  then have "sorted (map snd (take j (sort_key snd m)) @ map snd (drop j (sort_key snd m)))"
    by (simp only: map_append[symmetric] append_take_drop_id)
  then have "\<forall>x \<in> set (map snd (take j (sort_key snd m))).
               \<forall>y \<in> set (map snd (drop j (sort_key snd m))). x \<le> y"
    by (simp only: sorted_append) blast
  then have "\<forall>k \<in> set (take j (sort_key snd m)). \<forall>d \<in> set (drop j (sort_key snd m)). snd k \<le> snd d"
    by simp
  with k show ?thesis
    by (intro exI[of _ "drop j (sort_key snd m)"]) simp
qed

text \<open>
  Claim C1 fails.  Ann has 31 memories; the oldest, node 1, has the highest importance and
  the highest final score, 4, and every other node scores less.  The retrieval for one
  focal point keeps the nodes 31, ..., 2, the 30 lowest scores, and drops node 1.
\<close>

theorem retrieveForFocalPoints_drops_highest:
  "\<exists>retrieved p'.
     finalScores unitEmbedder annCrowded ''bob is cooking''
       = Some (map (\<lambda>n. (n, crowdedScore n)) crowdedIds, annCrowded) \<and>
     retrieveForFocalPoints unitEmbedder annCrowded [''bob is cooking''] []
       = Some (retrieved, p') \<and>
     retrieved ''bob is cooking'' = Some (map int (rev [2 ..< 32])) \<and>
     crowdedIds = map int [1 ..< 32] \<and>
     crowdedScore 1 = 4 \<and>
     list_all (\<lambda>n. crowdedScore n < crowdedScore 1) (map int (rev [2 ..< 32]))"
proof -
  let ?kept = "map (\<lambda>n. (n, crowdedScore n)) (rev (tl crowdedIds))"
  have ids: "map fst ?kept = map int (rev [2 ..< 32])"
    by (simp add: crowdedIds_def upt_rec comp_def)
  have "list_all (\<lambda>k. 0 \<le> k \<and> k < int (length (nodes (associativeMemory annCrowded))))
          (map fst ?kept)"
    unfolding ids by (simp add: annCrowded_fields crowdedStore_facts upt_rec)
  from touchAll_returns[OF this]
  obtain store where
    t: "touchAll (associativeMemory annCrowded) (CurrentTime (state annCrowded)) (map fst ?kept)
          = Some store"
    by blast
  have r: "retrieveForFocalPoints unitEmbedder annCrowded [''bob is cooking''] []
             = Some ([''bob is cooking'' \<mapsto> map fst ?kept],
                     annCrowded\<lparr> associativeMemory := store \<rparr>)"
    by (rule retrieveForFocalPoints_single[OF crowded_finalScores crowded_highest t])
  have s1: "crowdedScore 1 = 4"
    by (simp add: crowdedScore_def power_divide)
  have lower: "list_all (\<lambda>n. crowdedScore n < crowdedScore 1) (map int (rev [2 ..< 32]))"
    by (simp add: crowdedScore_def upt_rec power_divide)
  show ?thesis
    using crowded_finalScores r ids s1 lower by (simp add: crowdedIds_def)
qed

end
